theory Spec2Isabelle
  imports Complex_Main "HOL-Library.Word" "HOL-Library.Sublist" "HOL-Library.Log_Nat"
begin

text \<open>
  A web client for renaming the files of a Telegram channel in bulk: the user gives
  credentials, two channels and two lists of names, the client pairs the lists into
  Mappings, posts a start request, and follows the job over a WebSocket. The theory
  embeds the handlers of the client, function by function, and proves properties of
  the Mapping list, the start request, the code form, the event handlers and the
  progress bar; the matcher and the job loop of the backend are modelled from the
  specification.
\<close>

section \<open>JavaScript strings\<close>

text \<open>
  A JavaScript string is a sequence of UTF-16 code units. The web client reads every
  form field as such a string (\<^verbatim>\<open>e.target.value\<close>).
\<close>

type_synonym js_string = "16 word list"

definition ascii :: "string \<Rightarrow> js_string" where
  "ascii s = map (\<lambda>c. of_nat (of_char c)) s"

text \<open>
  \<^verbatim>\<open>String.prototype.trim\<close> removes the code units of the ECMAScript productions
  WhiteSpace and LineTerminator from both ends.
\<close>

definition white_space :: "16 word list" where
  "white_space =
     [0x0009, 0x000A, 0x000B, 0x000C, 0x000D, 0x0020, 0x00A0, 0x1680,
      0x2000, 0x2001, 0x2002, 0x2003, 0x2004, 0x2005, 0x2006, 0x2007,
      0x2008, 0x2009, 0x200A, 0x2028, 0x2029, 0x202F, 0x205F, 0x3000, 0xFEFF]"

definition is_ws :: "16 word \<Rightarrow> bool" where
  "is_ws c = (c \<in> set white_space)"

definition trim :: "js_string \<Rightarrow> js_string" where
  "trim s = rev (dropWhile is_ws (rev (dropWhile is_ws s)))"

text \<open>A string is truthy in a condition exactly when it is not the empty string.\<close>

definition truthy :: "js_string \<Rightarrow> bool" where
  "truthy s = (s \<noteq> [])"

text \<open>
  \<^verbatim>\<open>s.split("\n")\<close>: the pieces between line feeds; the empty string gives one
  empty piece.
\<close>

fun split_nl :: "js_string \<Rightarrow> js_string list" where
  "split_nl [] = [[]]"
| "split_nl (c # cs) =
     (if c = 0x000A then [] # split_nl cs
      else (case split_nl cs of
              [] \<Rightarrow> [[c]]
            | l # ls \<Rightarrow> (c # l) # ls))"

section \<open>The Mapping list of the web client\<close>

text \<open>
  \<^verbatim>\<open>
  const mappings = useMemo(() => {
    const oldLines = oldNames.split("\n").filter(l => l.trim());
    const newLines = newNames.split("\n").filter(l => l.trim());
    if (oldLines.length === 0 || newLines.length === 0 || oldLines.length !== newLines.length) return [];
    return oldLines.map((old, i) => ({ old: old.trim(), new: newLines[i].trim() }));
  }, [oldNames, newNames]);
  \<close>
  Reading \<^verbatim>\<open>newLines[i]\<close> out of range gives \<^verbatim>\<open>undefined\<close>, and calling
  \<^verbatim>\<open>trim\<close> on it throws a TypeError; that branch is part of the model.
\<close>

datatype js_error = TypeError

record NamePair =
  old :: js_string
  new :: js_string

text \<open>
  A line is blank when \<^verbatim>\<open>l.trim()\<close> is falsy, the test of the two line filters:
  when it is empty or holds white space only.
\<close>

definition blank :: "js_string \<Rightarrow> bool" where
  "blank l = (\<not> truthy (trim l))"

definition nonblank_lines :: "js_string \<Rightarrow> js_string list" where
  "nonblank_lines s = filter (\<lambda>l. truthy (trim l)) (split_nl s)"

fun map_lines :: "nat \<Rightarrow> js_string list \<Rightarrow> js_string list \<Rightarrow> js_error + NamePair list" where
  "map_lines i [] newLines = Inr []"
| "map_lines i (ol # rest) newLines =
     (if i < length newLines
      then (case map_lines (Suc i) rest newLines of
              Inl e \<Rightarrow> Inl e
            | Inr ps \<Rightarrow> Inr (\<lparr>old = trim ol, new = trim (newLines ! i)\<rparr> # ps))
      else Inl TypeError)"

definition mappings :: "js_string \<Rightarrow> js_string \<Rightarrow> js_error + NamePair list" where
  "mappings oldNames newNames =
     (let oldLines = nonblank_lines oldNames;
          newLines = nonblank_lines newNames
      in if length oldLines = 0 \<or> length newLines = 0 \<or> length oldLines \<noteq> length newLines
         then Inr []
         else map_lines 0 oldLines newLines)"

section \<open>State of the web client\<close>

text \<open>
  The client exists in two versions whose state and handlers differ only in the
  three counters \<^verbatim>\<open>renamed\<close>, \<^verbatim>\<open>failed\<close> and \<^verbatim>\<open>notFound\<close> of the job state; the
  later version, which has them, is the one modelled. The numbers of the job state
  are counts and are integers here.
  \<^verbatim>\<open>
  type Tab = "setup" | "mapping" | "run" | "guide";
  type JobStatus = "idle" | "starting" | "scanning" | "renaming" | "done" | "error";
  interface JobState { jobId: string | null; status: JobStatus; progress: number;
    total: number; logs: string[]; error: string | null; needsOtp: boolean;
    sessionString: string | null; renamed: number; failed: number; notFound: number; }
  \<close>
  The field \<^verbatim>\<open>total\<close> is written \<open>total_j\<close> and the job's \<^verbatim>\<open>sessionString\<close> is
  written \<open>sessionString_j\<close>; the form field of the same name keeps its name.
\<close>

datatype Tab = TabSetup | TabMapping | TabRun | TabGuide

datatype JobStatus = Idle | Starting | Scanning | Renaming | Done | Error

record JobState =
  jobId :: "js_string option"
  status :: JobStatus
  progress :: int
  total_j :: int
  logs :: "js_string list"
  error :: "js_string option"
  needsOtp :: bool
  sessionString_j :: "js_string option"
  renamed :: int
  failed :: int
  notFound :: int

record App =
  activeTab :: Tab
  apiId :: js_string
  apiHash :: js_string
  phone :: js_string
  srcChannel :: js_string
  dstChannel :: js_string
  deleteFromSrc :: bool
  sessionString :: js_string
  oldNames :: js_string
  newNames :: js_string
  otp :: js_string
  job :: JobState

definition initial_job :: JobState where
  "initial_job =
     \<lparr>jobId = None, status = Idle, progress = 0, total_j = 0, logs = [], error = None,
      needsOtp = False, sessionString_j = None, renamed = 0, failed = 0, notFound = 0\<rparr>"

definition initial_app :: App where
  "initial_app =
     \<lparr>activeTab = TabSetup, apiId = [], apiHash = [], phone = [], srcChannel = [],
      dstChannel = [], deleteFromSrc = False, sessionString = [], oldNames = [],
      newNames = [], otp = [], job = initial_job\<rparr>"

text \<open>
  \<^verbatim>\<open>const ready = Boolean(apiId && apiHash && phone && srcChannel && dstChannel);\<close>
\<close>

definition ready :: "App \<Rightarrow> bool" where
  "ready app =
     (truthy (apiId app) \<and> truthy (apiHash app) \<and> truthy (phone app) \<and>
      truthy (srcChannel app) \<and> truthy (dstChannel app))"

section \<open>Starting a job\<close>

text \<open>The JSON body of \<^verbatim>\<open>POST /api/start-rename\<close>; \<open>None\<close> is \<^verbatim>\<open>null\<close>.\<close>

record StartRequest =
  req_api_id :: js_string
  req_api_hash :: js_string
  req_phone :: js_string
  req_src_channel :: js_string
  req_dst_channel :: js_string
  req_delete_from_src :: bool
  req_session_string :: "js_string option"
  req_mappings :: "NamePair list"

text \<open>
  The first log line of a job. In the later version the string literal begins with
  the four characters U+011F, U+0178, U+201D, U+201E; the earlier version has the
  one character U+1F504 in their place.
\<close>

definition connecting_line :: js_string where
  "connecting_line = [0x011F, 0x0178, 0x201D, 0x201E] @ ascii '' Connecting to server...''"

text \<open>
  \<^verbatim>\<open>
  const handleStart = async () => {
    if (!ready || mappings.length === 0) return;
    setJob({ jobId: null, status: "starting", progress: 0, total: mappings.length,
             logs: ["... Connecting to server..."], error: null, needsOtp: false,
             sessionString: null, renamed: 0, failed: 0, notFound: 0 });
    setActiveTab("run");
    try {
      const res = await fetch(`${API}/api/start-rename`, { method: "POST", ...,
        body: JSON.stringify({ api_id: apiId, api_hash: apiHash, phone,
          src_channel: srcChannel, dst_channel: dstChannel, delete_from_src: deleteFromSrc,
          session_string: sessionString || null, mappings }) });
  \<close>
  \<open>handleStart\<close> is the part up to the \<^verbatim>\<open>await\<close>: it returns the new state and the
  request it issued, if any. An exception of \<open>mappings\<close> is passed on.
\<close>

definition handleStart :: "App \<Rightarrow> js_error + App \<times> StartRequest option" where
  "handleStart app =
     (case mappings (oldNames app) (newNames app) of
        Inl e \<Rightarrow> Inl e
      | Inr ms \<Rightarrow>
          Inr (if \<not> ready app \<or> length ms = 0 then (app, None)
               else (app\<lparr>job :=
                           \<lparr>jobId = None, status = Starting, progress = 0,
                            total_j = int (length ms), logs = [connecting_line],
                            error = None, needsOtp = False, sessionString_j = None,
                            renamed = 0, failed = 0, notFound = 0\<rparr>,
                         activeTab := TabRun\<rparr>,
                     Some \<lparr>req_api_id = apiId app, req_api_hash = apiHash app,
                           req_phone = phone app, req_src_channel = srcChannel app,
                           req_dst_channel = dstChannel app,
                           req_delete_from_src = deleteFromSrc app,
                           req_session_string =
                             (if truthy (sessionString app) then Some (sessionString app)
                              else None),
                           req_mappings = ms\<rparr>)))"

text \<open>
  \<^verbatim>\<open>
      if (!res.ok) throw new Error(`Server error: ${await res.text()}`);
      const { job_id } = await res.json();
      setJob(prev => ({ ...prev, jobId: job_id }));
      connectWs(job_id);
    } catch (err: unknown) {
      const message = err instanceof Error ? err.message : String(err);
      setJob(prev => ({ ...prev, status: "error", error: message,
                        logs: [...prev.logs, `... Failed to start: ${message}`] }));
    }
  \<close>
  What comes back from the server is an input of the model: the request failed with a
  message, the response was not ok and had a body text, reading the JSON body failed
  with a message, the body was read and held a \<^verbatim>\<open>job_id\<close> (\<open>None\<close> when the key
  is missing), or the body was read and opening the WebSocket threw.
\<close>

datatype fetch_result =
    FetchFailed js_string
  | ResponseNotOk js_string
  | JsonFailed js_string
  | ResponseOk "js_string option"
  | SocketFailed "js_string option" js_string

datatype ws_connect = ConnectWs "js_string option"

text \<open>
  The log line of a failed start. In the later version the template literal begins
  with the two characters U+00E2, U+0152; the earlier version has the one character
  U+274C in their place.
\<close>

definition failed_line :: "js_string \<Rightarrow> js_string" where
  "failed_line message = [0x00E2, 0x0152] @ ascii '' Failed to start: '' @ message"

definition start_failed :: "JobState \<Rightarrow> js_string \<Rightarrow> JobState" where
  "start_failed prev message =
     prev\<lparr>status := Error, error := Some message,
          logs := logs prev @ [failed_line message]\<rparr>"

definition handleStart_resume :: "App \<Rightarrow> fetch_result \<Rightarrow> App \<times> ws_connect option" where
  "handleStart_resume app r =
     (case r of
        FetchFailed message \<Rightarrow> (app\<lparr>job := start_failed (job app) message\<rparr>, None)
      | ResponseNotOk body \<Rightarrow>
          (app\<lparr>job := start_failed (job app) (ascii ''Server error: '' @ body)\<rparr>, None)
      | JsonFailed message \<Rightarrow> (app\<lparr>job := start_failed (job app) message\<rparr>, None)
      | ResponseOk job_id \<Rightarrow>
          (app\<lparr>job := (job app)\<lparr>jobId := job_id\<rparr>\<rparr>, Some (ConnectWs job_id))
      | SocketFailed job_id message \<Rightarrow>
          (app\<lparr>job := start_failed ((job app)\<lparr>jobId := job_id\<rparr>) message\<rparr>, None))"

section \<open>Events of the WebSocket\<close>

text \<open>
  The parsed message \<^verbatim>\<open>data\<close>. The keys \<^verbatim>\<open>session_string\<close>, \<^verbatim>\<open>renamed\<close>,
  \<^verbatim>\<open>failed\<close> and \<^verbatim>\<open>not_found\<close> are read with \<^verbatim>\<open>??\<close>, so \<open>None\<close> stands for
  \<^verbatim>\<open>null\<close> or a missing key. \<^verbatim>\<open>data.status\<close> is cast to \<^verbatim>\<open>JobStatus\<close>.
\<close>

record StatusData =
  data_status :: JobStatus
  data_progress :: int
  data_total :: int
  data_needs_otp :: bool
  data_error :: "js_string option"
  data_session_string :: "js_string option"
  data_renamed :: "int option"
  data_failed :: "int option"
  data_not_found :: "int option"

datatype ws_data =
    LogMsg js_string
  | StatusMsg StatusData
  | OtherMsg
  | Unparsable

text \<open>
  \<^verbatim>\<open>
  ws.onmessage = (event) => {
    const data = JSON.parse(event.data);
    if (data.type === "log") {
      setJob(prev => ({ ...prev, logs: [...prev.logs, data.message] }));
    } else if (data.type === "status") {
      setJob(prev => ({ ...prev, status: data.status as JobStatus,
        progress: data.progress, total: data.total, needsOtp: data.needs_otp,
        error: data.error, sessionString: data.session_string ?? prev.sessionString,
        renamed: data.renamed ?? prev.renamed, failed: data.failed ?? prev.failed,
        notFound: data.not_found ?? prev.notFound }));
    }
  };
  ws.onerror = () => {
    setJob(prev => ({ ...prev, status: "error",
      error: "WebSocket connection failed. Is the backend running?" }));
  };
  \<close>
  A message of another type, and one that \<^verbatim>\<open>JSON.parse\<close> rejects, change nothing.
\<close>

definition nullish :: "'a option \<Rightarrow> 'a \<Rightarrow> 'a" where
  "nullish v d = (case v of None \<Rightarrow> d | Some x \<Rightarrow> x)"

definition onmessage :: "JobState \<Rightarrow> ws_data \<Rightarrow> JobState" where
  "onmessage prev d =
     (case d of
        LogMsg message \<Rightarrow> prev\<lparr>logs := logs prev @ [message]\<rparr>
      | StatusMsg s \<Rightarrow>
          prev\<lparr>status := data_status s, progress := data_progress s,
               total_j := data_total s, needsOtp := data_needs_otp s,
               error := data_error s,
               sessionString_j :=
                 (case data_session_string s of
                    None \<Rightarrow> sessionString_j prev
                  | Some t \<Rightarrow> Some t),
               renamed := nullish (data_renamed s) (renamed prev),
               failed := nullish (data_failed s) (failed prev),
               notFound := nullish (data_not_found s) (notFound prev)\<rparr>
      | OtherMsg \<Rightarrow> prev
      | Unparsable \<Rightarrow> prev)"

definition ws_failed_text :: js_string where
  "ws_failed_text = ascii ''WebSocket connection failed. Is the backend running?''"

definition onerror :: "JobState \<Rightarrow> JobState" where
  "onerror prev = prev\<lparr>status := Error, error := Some ws_failed_text\<rparr>"

section \<open>Submitting the login code\<close>

text \<open>
  \<^verbatim>\<open>
  const handleSubmitOtp = async () => {
    if (!job.jobId || !otp) return;
    await fetch(`${API}/api/submit-otp`, { method: "POST", ...,
      body: JSON.stringify({ job_id: job.jobId, otp }) });
    setOtp("");
  };
  \<close>
  \<^verbatim>\<open>!job.jobId\<close> holds for \<^verbatim>\<open>null\<close> and for the empty string. The flag
  \<open>resolved\<close> says whether the \<^verbatim>\<open>fetch\<close> promise resolved; when it rejects, the
  input is not cleared. The handler itself does not read \<^verbatim>\<open>needsOtp\<close>.
\<close>

record OtpRequest =
  otp_job_id :: js_string
  otp_code :: js_string

definition handleSubmitOtp :: "App \<Rightarrow> bool \<Rightarrow> App \<times> OtpRequest option" where
  "handleSubmitOtp app resolved =
     (case jobId (job app) of
        None \<Rightarrow> (app, None)
      | Some jid \<Rightarrow>
          if \<not> truthy jid \<or> \<not> truthy (otp app) then (app, None)
          else (if resolved then app\<lparr>otp := []\<rparr> else app,
                Some \<lparr>otp_job_id = jid, otp_code = otp app\<rparr>))"

text \<open>
  The handler reaches the page as the prop \<^verbatim>\<open>onSubmitOtp\<close> of \<^verbatim>\<open>RunTab\<close>, which
  calls it in two places, both inside the code form, and renders the form only while
  the job asks for a code:
  \<^verbatim>\<open>
  {job.needsOtp && (
    <div ...>
      <input type="text" value={otp} onChange={e => setOtp(e.target.value)} ...
        onKeyDown={e => e.key === "Enter" && onSubmitOtp()} />
      <button onClick={onSubmitOtp} ...>Submit</button>
    </div>
  )}
  \<close>
  The form and the handler are built in the same render, from the same \<^verbatim>\<open>job\<close>.
  While \<^verbatim>\<open>needsOtp\<close> is false the form is not in the page: none of its three
  events occurs, so nothing is posted and nothing changes.
\<close>

definition otp_form_rendered :: "App \<Rightarrow> bool" where
  "otp_form_rendered app = needsOtp (job app)"

definition otp_onChange :: "App \<Rightarrow> js_string \<Rightarrow> App" where
  "otp_onChange app v = (if otp_form_rendered app then app\<lparr>otp := v\<rparr> else app)"

definition otp_onKeyDown :: "App \<Rightarrow> js_string \<Rightarrow> bool \<Rightarrow> App \<times> OtpRequest option" where
  "otp_onKeyDown app key resolved =
     (if otp_form_rendered app
      then (if key = ascii ''Enter'' then handleSubmitOtp app resolved else (app, None))
      else (app, None))"

definition otp_onClick :: "App \<Rightarrow> bool \<Rightarrow> App \<times> OtpRequest option" where
  "otp_onClick app resolved =
     (if otp_form_rendered app then handleSubmitOtp app resolved else (app, None))"

section \<open>The client as a machine\<close>

text \<open>
  One step per thing that can happen to the page: a click on Start, the answer to the
  start request, a WebSocket message, a WebSocket error, and the three events of the
  code form: a click on Submit, a key pressed in the code field, a change of its text.
\<close>

datatype client_event =
    ClickStart
  | StartAnswer fetch_result
  | WsMessage ws_data
  | WsError
  | SubmitOtp bool
  | OtpKeyDown js_string bool
  | OtpChange js_string

definition step :: "App \<Rightarrow> client_event \<Rightarrow> App" where
  "step app e =
     (case e of
        ClickStart \<Rightarrow> (case handleStart app of Inl _ \<Rightarrow> app | Inr (app', _) \<Rightarrow> app')
      | StartAnswer r \<Rightarrow> fst (handleStart_resume app r)
      | WsMessage d \<Rightarrow> app\<lparr>job := onmessage (job app) d\<rparr>
      | WsError \<Rightarrow> app\<lparr>job := onerror (job app)\<rparr>
      | SubmitOtp resolved \<Rightarrow> fst (otp_onClick app resolved)
      | OtpKeyDown key resolved \<Rightarrow> fst (otp_onKeyDown app key resolved)
      | OtpChange v \<Rightarrow> otp_onChange app v)"

definition run_events :: "App \<Rightarrow> client_event list \<Rightarrow> App" where
  "run_events app es = foldl step app es"

section \<open>The client that logs in with a session string\<close>

text \<open>
  \<^verbatim>\<open>src/App.tsx\<close> is a client of its own: it has no phone number and no code form,
  sends a plain list of new file names, and polls \<^verbatim>\<open>/api/status\<close>. Its state
  variables that share a name with the client above carry the suffix \<open>_s\<close>.
  \<^verbatim>\<open>
  const startTask = async () => {
    const namesList = newFilenames.split('\n').map(n => n.trim()).filter(n => n.length > 0);
    if (namesList.length === 0) { alert("Please provide at least one filename."); return; }
    if (!apiId || !apiHash || !sessionString || !sourceChatId || !destChatId) {
      alert("Please fill in all configuration fields."); return; }
    try {
      await axios.post('/api/start', { api_id: parseInt(apiId), api_hash: apiHash,
        session_string: sessionString, source_chat_id: sourceChatId,
        dest_chat_id: destChatId, filenames: namesList, start_index: 0 });
      setIsRunning(true);
      setActiveTab('run');
    } catch (e: any) {
      alert("Failed to start task: " + (e.response?.data?.detail || e.message));
    }
  };
  \<close>
  The number \<^verbatim>\<open>parseInt(apiId)\<close> is kept as the call, \<open>ParseInt\<close> of the text.
\<close>

datatype Tab_s = TabConfig | TabFiles | TabRun_s

record SessionApp =
  apiId_s :: js_string
  apiHash_s :: js_string
  sessionString_s :: js_string
  sourceChatId :: js_string
  destChatId :: js_string
  newFilenames :: js_string
  isRunning :: bool
  logs_s :: "js_string list"
  progress_s :: int
  totalFiles :: int
  currentFile :: js_string
  activeTab_s :: Tab_s

datatype parsed_int = ParseInt js_string

record TaskRequest =
  task_api_id :: parsed_int
  task_api_hash :: js_string
  task_session_string :: js_string
  task_source_chat_id :: js_string
  task_dest_chat_id :: js_string
  task_filenames :: "js_string list"
  task_start_index :: int

datatype task_effect = Alert js_string | Post TaskRequest

definition namesList :: "js_string \<Rightarrow> js_string list" where
  "namesList text = filter (\<lambda>n. length n > 0) (map trim (split_nl text))"

definition startTask :: "SessionApp \<Rightarrow> task_effect" where
  "startTask app =
     (if length (namesList (newFilenames app)) = 0
      then Alert (ascii ''Please provide at least one filename.'')
      else if \<not> truthy (apiId_s app) \<or> \<not> truthy (apiHash_s app) \<or>
              \<not> truthy (sessionString_s app) \<or> \<not> truthy (sourceChatId app) \<or>
              \<not> truthy (destChatId app)
      then Alert (ascii ''Please fill in all configuration fields.'')
      else Post \<lparr>task_api_id = ParseInt (apiId_s app), task_api_hash = apiHash_s app,
                 task_session_string = sessionString_s app,
                 task_source_chat_id = sourceChatId app,
                 task_dest_chat_id = destChatId app,
                 task_filenames = namesList (newFilenames app),
                 task_start_index = 0\<rparr>)"

text \<open>
  After the \<^verbatim>\<open>await\<close>: \<open>None\<close> when the post succeeded, otherwise the detail or
  message of the failure, which is shown in an alert.
\<close>

definition startTask_resume :: "SessionApp \<Rightarrow> js_string option \<Rightarrow> SessionApp \<times> js_string option" where
  "startTask_resume app failure =
     (case failure of
        None \<Rightarrow> (app\<lparr>isRunning := True, activeTab_s := TabRun_s\<rparr>, None)
      | Some detail \<Rightarrow> (app, Some (ascii ''Failed to start task: '' @ detail)))"

section \<open>The engine behind the WebSocket\<close>

text \<open>
  The rename engine runs in the backend (\<^verbatim>\<open>backend/server.py\<close>), which is not
  among the sources verified here; of the repository, only its client is. What the client
  is told over the WebSocket is decided there, so the two components that decide it
  are modelled from the spec.
\<close>

subsection \<open>Fuzzy Matcher\<close>

text \<open>
  Modelled from the spec: the ChannelIndexEntry, which the backend holds. Data Model:
  one per file discovered during scanning, with \<^verbatim>\<open>messageId\<close>, \<^verbatim>\<open>fileName\<close> as
  stored, \<^verbatim>\<open>fileSize\<close> and an opaque \<^verbatim>\<open>fileReference\<close>. The index is a list in
  scan order, oldest message first.
\<close>

record ChannelIndexEntry =
  messageId :: int
  fileName :: js_string
  fileSize :: int
  fileReference :: nat

text \<open>
  Modelled from the spec: the tier of a match, which the backend records. Data
  Model: \<^verbatim>\<open>matchTier\<close> is none, exact, normalized or episode; none is the absence
  of a match here.
\<close>

datatype MatchTier = Exact | Normalized | Episode

text \<open>
  Modelled from the spec: tier 1 of the backend's matcher. Fuzzy Matcher: "Exact -
  byte-for-byte equality between requested \<^verbatim>\<open>oldName\<close> and a \<^verbatim>\<open>fileName\<close>"; ties
  "resolve to the first-scanned entry".
\<close>

definition exact_tier :: "js_string \<Rightarrow> ChannelIndexEntry list \<Rightarrow> ChannelIndexEntry option" where
  "exact_tier oldName entries = find (\<lambda>e. fileName e = oldName) entries"

text \<open>
  Modelled from the spec: tier 2 of the backend's matcher. Fuzzy Matcher:
  "Normalized - equality after a canonicalization that lower-cases, strips
  bracketed/parenthesized segments, collapses whitespace, and removes punctuation
  not part of an extension". The spec gives the canonicalization in outline only, so
  it is the argument \<open>canon\<close>.
\<close>

definition normalized_tier ::
  "(js_string \<Rightarrow> js_string) \<Rightarrow> js_string \<Rightarrow> ChannelIndexEntry list \<Rightarrow> ChannelIndexEntry option" where
  "normalized_tier canon oldName entries =
     find (\<lambda>e. canon (fileName e) = canon oldName) entries"

text \<open>
  Modelled from the spec: tier 3 of the backend's matcher. Fuzzy Matcher:
  "Episode-number - extracts the first contiguous digit run interpretable as an
  episode ordinal from both the requested name and each candidate \<^verbatim>\<open>fileName\<close>;
  matches if the extracted numbers are equal". The extraction is the argument
  \<open>episode\<close>; a request without a number matches nothing.
\<close>

definition episode_tier ::
  "(js_string \<Rightarrow> nat option) \<Rightarrow> js_string \<Rightarrow> ChannelIndexEntry list \<Rightarrow> ChannelIndexEntry option" where
  "episode_tier episode oldName entries =
     (case episode oldName of
        None \<Rightarrow> None
      | Some n \<Rightarrow> find (\<lambda>e. episode (fileName e) = Some n) entries)"

text \<open>
  Modelled from the spec: the backend's matcher. Fuzzy Matcher: "Three-tier,
  first-match-wins, evaluated in this fixed order against the ChannelIndexEntry set".
\<close>

definition fuzzy_match ::
  "(js_string \<Rightarrow> js_string) \<Rightarrow> (js_string \<Rightarrow> nat option) \<Rightarrow> js_string \<Rightarrow>
   ChannelIndexEntry list \<Rightarrow> (ChannelIndexEntry \<times> MatchTier) option" where
  "fuzzy_match canon episode oldName entries =
     (case exact_tier oldName entries of
        Some e \<Rightarrow> Some (e, Exact)
      | None \<Rightarrow>
          (case normalized_tier canon oldName entries of
             Some e \<Rightarrow> Some (e, Normalized)
           | None \<Rightarrow>
               (case episode_tier episode oldName entries of
                  Some e \<Rightarrow> Some (e, Episode)
                | None \<Rightarrow> None)))"

text \<open>
  Modelled from the spec: one step of the backend's canonicalization, the
  lower-casing, here of the Latin capital letters; it serves as \<open>canon\<close> in worked
  inputs.
\<close>

definition lower_case :: "js_string \<Rightarrow> js_string" where
  "lower_case s = map (\<lambda>c. if 0x41 \<le> c \<and> c \<le> 0x5A then c + 0x20 else c) s"

text \<open>
  Modelled from the spec: the backend's "first contiguous digit run", read as a
  decimal number; it serves as \<open>episode\<close> in worked inputs.
\<close>

definition is_digit :: "16 word \<Rightarrow> bool" where
  "is_digit c = (0x30 \<le> c \<and> c \<le> 0x39)"

definition first_digit_run :: "js_string \<Rightarrow> nat option" where
  "first_digit_run s =
     (let ds = takeWhile is_digit (dropWhile (\<lambda>c. \<not> is_digit c) s)
      in if ds = [] then None
         else Some (foldl (\<lambda>n c. 10 * n + (unat c - 0x30)) 0 ds))"

subsection \<open>Job Supervisor\<close>

text \<open>
  Modelled from the spec: what the backend's collaborators answer, as inputs of the
  Job Supervisor. External Interfaces: authenticate gives success, needsOtp or
  failure, and submitOtp success or failure; Job Supervisor: a rejected code
  "returns to \<^verbatim>\<open>awaiting-otp\<close> with an updated log line rather than failing the job
  outright, bounded by the collaborator's own retry limit". \<open>AuthNeedsOtp\<close> carries
  the verdicts on the codes submitted one after another; when none is accepted the
  retries are exhausted.
\<close>

datatype AuthResult = AuthSuccess | AuthNeedsOtp "bool list" | AuthFailure

text \<open>
  Modelled from the spec: the occasions on which the backend writes a log line
  (Job Supervisor, Error Handling Design). The spec fixes no wording.
\<close>

datatype Notice =
    Skipped | NoMatch | Transferred | TransferFailed | DeleteFailed | Stopped
  | CodeRejected | AuthFailed | ScanFailed | TransportLost

text \<open>
  Modelled from the spec: the surroundings of one run of the backend's Job
  Supervisor: the two functions of the matcher, the answer of the authentication,
  the result of the one scan (\<open>None\<close> when the channel cannot be resolved), the
  outcome of the transfer of an entry under a new name and of the deletion of its
  source message, the CompletionRecord of the channel pair at the start of the job
  (the old names done), whether a stop request and whether an unrecoverable
  disconnection is seen at the top of iteration \<open>k\<close>, the session token, and the
  wording of a log line about a name.
\<close>

record Engine =
  canonical :: "js_string \<Rightarrow> js_string"
  episode_of :: "js_string \<Rightarrow> nat option"
  authenticate :: AuthResult
  scan :: "ChannelIndexEntry list option"
  transfer_ok :: "ChannelIndexEntry \<Rightarrow> js_string \<Rightarrow> bool"
  delete_ok :: "ChannelIndexEntry \<Rightarrow> bool"
  completion :: "js_string list"
  stop_seen :: "nat \<Rightarrow> bool"
  transport_lost :: "nat \<Rightarrow> bool"
  session_token :: js_string
  wording :: "Notice \<Rightarrow> js_string \<Rightarrow> js_string"

text \<open>
  Modelled from the spec: the Job of the backend. Data Model: status, the counters
  \<^verbatim>\<open>renamed\<close>, \<^verbatim>\<open>failed\<close>, \<^verbatim>\<open>notFound\<close>, \<^verbatim>\<open>progress\<close>, \<^verbatim>\<open>total\<close>, the terminal
  \<^verbatim>\<open>error\<close>, the \<^verbatim>\<open>sessionToken\<close>, the \<^verbatim>\<open>needsOtp\<close> flag; with it the entries not
  yet consumed and the CompletionRecord.
\<close>

record EngineJob =
  j_status :: JobStatus
  j_progress :: int
  j_total :: int
  j_renamed :: int
  j_failed :: int
  j_notFound :: int
  j_needsOtp :: bool
  j_error :: "js_string option"
  j_sessionToken :: "js_string option"
  j_index :: "ChannelIndexEntry list"
  j_completed :: "js_string list"

text \<open>
  Modelled from the spec: the status event the backend emits. External Interfaces:
  events \<^verbatim>\<open>{status, progress, total, needsOtp, error, sessionToken?, renamed,
  failed, notFound}\<close>.
\<close>

definition status_event :: "EngineJob \<Rightarrow> ws_data" where
  "status_event j =
     StatusMsg \<lparr>data_status = j_status j, data_progress = j_progress j,
                data_total = j_total j, data_needs_otp = j_needsOtp j,
                data_error = j_error j, data_session_string = j_sessionToken j,
                data_renamed = Some (j_renamed j), data_failed = Some (j_failed j),
                data_not_found = Some (j_notFound j)\<rparr>"

text \<open>
  Modelled from the spec: a job-fatal error in the backend. Error Handling Design:
  "job-fatal errors transition the Job to \<^verbatim>\<open>error\<close> with a human-readable message";
  "every error, fatal or not, produces at least one log line".
\<close>

definition fatal :: "Engine \<Rightarrow> EngineJob \<Rightarrow> Notice \<Rightarrow> ws_data list" where
  "fatal E j n =
     [LogMsg (wording E n []),
      status_event (j\<lparr>j_status := Error, j_error := Some (wording E n [])\<rparr>)]"

text \<open>
  Modelled from the spec: one Mapping in the backend's loop. Job Supervisor, steps 2
  and 3: a Mapping already in the CompletionRecord is skipped and \<^verbatim>\<open>progress\<close>
  incremented; otherwise the matcher runs; no match increments \<^verbatim>\<open>notFound\<close>; a
  match runs the transfer, whose success records completion, deletes the source
  message if the flag is set (a failure is a warning) and increments \<^verbatim>\<open>renamed\<close>,
  and whose failure increments \<^verbatim>\<open>failed\<close>. Fuzzy Matcher: a matched entry "is not
  eligible to be matched again in the same job". Testable Properties: progress
  "reaches \<^verbatim>\<open>total\<close> exactly when status becomes \<^verbatim>\<open>done\<close>", so every Mapping
  counts one.
\<close>

definition process_mapping ::
  "Engine \<Rightarrow> bool \<Rightarrow> EngineJob \<Rightarrow> NamePair \<Rightarrow> Notice list \<times> EngineJob" where
  "process_mapping E del j m =
     (if old m \<in> set (j_completed j)
      then ([Skipped], j\<lparr>j_progress := j_progress j + 1\<rparr>)
      else (case fuzzy_match (canonical E) (episode_of E) (old m) (j_index j) of
              None \<Rightarrow>
                ([NoMatch],
                 j\<lparr>j_notFound := j_notFound j + 1, j_progress := j_progress j + 1\<rparr>)
            | Some (e, tier) \<Rightarrow>
                if transfer_ok E e (new m)
                then ((if del \<and> \<not> delete_ok E e then [Transferred, DeleteFailed]
                       else [Transferred]),
                      j\<lparr>j_index := remove1 e (j_index j),
                        j_completed := old m # j_completed j,
                        j_renamed := j_renamed j + 1, j_progress := j_progress j + 1\<rparr>)
                else ([TransferFailed],
                      j\<lparr>j_index := remove1 e (j_index j),
                        j_failed := j_failed j + 1, j_progress := j_progress j + 1\<rparr>)))"

text \<open>
  Modelled from the spec: the backend's loop over the Mappings "in their original
  input order", from iteration \<open>k\<close> on. Job Supervisor: progress is emitted "after
  every file"; a stop request means "no further mappings are started"; an
  unrecoverable transport disconnection is fatal. Concurrency: the cancellation
  signal is "checked at the top of each per-mapping iteration". The result is the
  events, the Job, and whether the transport was lost.
\<close>

fun run_mappings ::
  "Engine \<Rightarrow> bool \<Rightarrow> nat \<Rightarrow> EngineJob \<Rightarrow> NamePair list \<Rightarrow> ws_data list \<times> EngineJob \<times> bool" where
  "run_mappings E del k j [] = ([], j, False)"
| "run_mappings E del k j (m # ms) =
     (if transport_lost E k then (fatal E j TransportLost, j, True)
      else if stop_seen E k then ([LogMsg (wording E Stopped (old m))], j, False)
      else (case process_mapping E del j m of
              (ns, j') \<Rightarrow>
                (case run_mappings E del (Suc k) j' ms of
                   (evs, j'', lost) \<Rightarrow>
                     (map (\<lambda>n. LogMsg (wording E n (old m))) ns @ status_event j' # evs,
                      j'', lost))))"

text \<open>
  Modelled from the spec: the backend's wait for a login code. Job Supervisor:
  \<^verbatim>\<open>awaiting-otp\<close> sets \<^verbatim>\<open>needsOtp=true\<close>; a bad code returns to it "with an
  updated log line". The result is the events and whether a code was accepted.
\<close>

fun otp_rounds :: "Engine \<Rightarrow> EngineJob \<Rightarrow> bool list \<Rightarrow> ws_data list \<times> bool" where
  "otp_rounds E j [] = ([], False)"
| "otp_rounds E j (accepted # rest) =
     (if accepted then ([], True)
      else (case otp_rounds E j rest of
              (evs, ok) \<Rightarrow>
                (LogMsg (wording E CodeRejected []) #
                 status_event (j\<lparr>j_needsOtp := True\<rparr>) # evs, ok)))"

text \<open>
  Modelled from the spec: the backend's job once authenticated. Job Supervisor,
  steps 1, 2 and 4: the Scanner is invoked once, and on its failure the job goes
  "directly to \<^verbatim>\<open>error\<close>"; then \<^verbatim>\<open>renaming\<close> and the loop; after the last
  Mapping, or a stop, \<^verbatim>\<open>done\<close> with the final session token and the counts.
\<close>

definition after_login :: "Engine \<Rightarrow> bool \<Rightarrow> EngineJob \<Rightarrow> NamePair list \<Rightarrow> ws_data list" where
  "after_login E del j ms =
     status_event (j\<lparr>j_status := Scanning\<rparr>) #
     (case scan E of
        None \<Rightarrow> fatal E (j\<lparr>j_status := Scanning\<rparr>) ScanFailed
      | Some entries \<Rightarrow>
          (case run_mappings E del 0 (j\<lparr>j_status := Renaming, j_index := entries\<rparr>) ms of
             (evs, j', lost) \<Rightarrow>
               status_event (j\<lparr>j_status := Renaming, j_index := entries\<rparr>) # evs @
               (if lost then []
                else [status_event (j'\<lparr>j_status := Done,
                                        j_sessionToken := Some (session_token E)\<rparr>)])))"

text \<open>
  Modelled from the spec: one job of the backend, as the list of the WebSocket
  messages it sends for an accepted start request. Job Supervisor: start "allocates
  a new Job, transitions to \<^verbatim>\<open>starting\<close>, and begins authentication"; Data Model:
  "\<^verbatim>\<open>total\<close> = count of Mappings".
\<close>

definition run_job :: "Engine \<Rightarrow> StartRequest \<Rightarrow> ws_data list" where
  "run_job E r =
     (let j = \<lparr>j_status = Starting, j_progress = 0,
                j_total = int (length (req_mappings r)), j_renamed = 0, j_failed = 0,
                j_notFound = 0, j_needsOtp = False, j_error = None,
                j_sessionToken = None, j_index = [], j_completed = completion E\<rparr>;
          rest = after_login E (req_delete_from_src r) j (req_mappings r)
      in status_event j #
         (case authenticate E of
            AuthSuccess \<Rightarrow> rest
          | AuthFailure \<Rightarrow> fatal E j AuthFailed
          | AuthNeedsOtp codes \<Rightarrow>
              status_event (j\<lparr>j_needsOtp := True\<rparr>) #
              (case otp_rounds E j codes of
                 (evs, ok) \<Rightarrow> evs @ (if ok then rest else fatal E j AuthFailed))))"

section \<open>Worked inputs\<close>

text \<open>A filled form with one old and one new name, and the same form with a phone
  number that is a single space.\<close>

definition filled_app :: App where
  "filled_app =
     initial_app\<lparr>apiId := ascii ''12345'', apiHash := ascii ''abc'',
                 phone := ascii ''+15550100'', srcChannel := ascii ''@src'',
                 dstChannel := ascii ''@dst'', oldNames := ascii ''a.mkv'',
                 newNames := ascii ''b.mkv''\<rparr>"

definition blank_phone_app :: App where
  "blank_phone_app = filled_app\<lparr>phone := ascii '' ''\<rparr>"

definition filled_request :: StartRequest where
  "filled_request =
     \<lparr>req_api_id = ascii ''12345'', req_api_hash = ascii ''abc'',
      req_phone = ascii ''+15550100'', req_src_channel = ascii ''@src'',
      req_dst_channel = ascii ''@dst'', req_delete_from_src = False,
      req_session_string = None,
      req_mappings = [\<lparr>old = ascii ''a.mkv'', new = ascii ''b.mkv''\<rparr>]\<rparr>"

definition started_job :: JobState where
  "started_job =
     \<lparr>jobId = None, status = Starting, progress = 0, total_j = 1,
      logs = [connecting_line], error = None, needsOtp = False,
      sessionString_j = None, renamed = 0, failed = 0, notFound = 0\<rparr>"

text \<open>The form of the session-string client, all filled but the session string.\<close>

definition no_session_app :: SessionApp where
  "no_session_app =
     \<lparr>apiId_s = ascii ''12345'', apiHash_s = ascii ''abc'', sessionString_s = [],
      sourceChatId = ascii ''-1001'', destChatId = ascii ''-1002'',
      newFilenames = ascii ''b.mkv'', isRunning = False, logs_s = [], progress_s = 0,
      totalFiles = 0, currentFile = [], activeTab_s = TabConfig\<rparr>"

text \<open>A job that is scanning and asks for no code, with text left in the code field.\<close>

definition scanning_app :: App where
  "scanning_app =
     filled_app\<lparr>otp := ascii ''12345'',
                job := started_job\<lparr>jobId := Some (ascii ''job1''), status := Scanning\<rparr>\<rparr>"

text \<open>An index whose first entry differs from the request in case only and whose
  second entry is the request itself.\<close>

definition upper_entry :: ChannelIndexEntry where
  "upper_entry = \<lparr>messageId = 1, fileName = ascii ''OLD1.mkv'', fileSize = 10, fileReference = 0\<rparr>"

definition same_entry :: ChannelIndexEntry where
  "same_entry = \<lparr>messageId = 2, fileName = ascii ''old1.mkv'', fileSize = 10, fileReference = 1\<rparr>"

text \<open>An engine that asks for a code, rejects the first, finds one file and transfers it.\<close>

definition demo_engine :: Engine where
  "demo_engine =
     \<lparr>canonical = lower_case, episode_of = first_digit_run,
      authenticate = AuthNeedsOtp [False, True],
      scan = Some [\<lparr>messageId = 1, fileName = ascii ''A.MKV'', fileSize = 10, fileReference = 0\<rparr>],
      transfer_ok = (\<lambda>e n. True), delete_ok = (\<lambda>e. True), completion = [],
      stop_seen = (\<lambda>k. False), transport_lost = (\<lambda>k. False),
      session_token = ascii ''token'', wording = (\<lambda>n s. s)\<rparr>"

section \<open>Notions used in the properties\<close>

text \<open>The pairs of the non-blank lines, line by line, when there are as many old as
  new ones and at least one.\<close>

definition paired :: "js_string \<Rightarrow> js_string \<Rightarrow> NamePair list" where
  "paired olds news =
     (if nonblank_lines olds = [] \<or>
         length (nonblank_lines olds) \<noteq> length (nonblank_lines news)
      then []
      else map2 (\<lambda>a b. \<lparr>old = trim a, new = trim b\<rparr>)
             (nonblank_lines olds) (nonblank_lines news))"

text \<open>What a message of the engine must satisfy for a job of \<open>n\<close> Mappings.\<close>

definition within_total :: "int \<Rightarrow> ws_data \<Rightarrow> bool" where
  "within_total n d =
     (case d of
        StatusMsg s \<Rightarrow> data_progress s \<le> data_total s \<and> data_total s = n
      | _ \<Rightarrow> True)"


text \<open>A code is asked for: the job of \<open>scanning_app\<close> with \<^verbatim>\<open>needsOtp\<close> set.\<close>

definition awaiting_app :: App where
  "awaiting_app = scanning_app\<lparr>job := (job scanning_app)\<lparr>needsOtp := True\<rparr>\<rparr>"


text \<open>A status event without a session string, and the last one of a job, with it.\<close>

definition renaming_status :: StatusData where
  "renaming_status =
     \<lparr>data_status = Renaming, data_progress = 0, data_total = 1, data_needs_otp = False,
      data_error = None, data_session_string = None, data_renamed = Some 0,
      data_failed = Some 0, data_not_found = Some 0\<rparr>"

definition done_status :: StatusData where
  "done_status =
     \<lparr>data_status = Done, data_progress = 1, data_total = 1, data_needs_otp = False,
      data_error = None, data_session_string = Some (ascii ''token''),
      data_renamed = Some 1, data_failed = Some 0, data_not_found = Some 0\<rparr>"

text \<open>The job state of the client keeps within the total of a job of \<open>n\<close> Mappings.\<close>

definition job_within :: "int \<Rightarrow> JobState \<Rightarrow> bool" where
  "job_within n j = (progress j \<le> total_j j \<and> total_j j = n)"

section \<open>The progress bar\<close>

text \<open>
  \<^verbatim>\<open>
  function ProgressBar({ value, max }: { value: number; max: number }) {
    const pct = max > 0 ? Math.round((value / max) * 100) : 0;
  \<close>
  A JavaScript number is an IEEE 754 binary64 value: \<open>Num x\<close> for a finite one (meant
  for \<open>x\<close> that binary64 represents), the two infinities, and NaN. The two zeros are
  one here, and a zero divisor is taken to be +0: the sign of a zero shows in a
  division by it, and the progress bar divides by \<^verbatim>\<open>max\<close> only when \<^verbatim>\<open>max > 0\<close>;
  the percentage is shown through \<^verbatim>\<open>${pct}%\<close>, which prints both zeros alike.
\<close>

datatype js_number = Num real | PosInfinity | NegInfinity | NaN

text \<open>The exponent of a positive number: the \<open>k\<close> with \<open>2^k \<le> q < 2^(k+1)\<close>.\<close>

definition floor_log2 :: "real \<Rightarrow> int" where
  "floor_log2 q = (if 1 \<le> q then bitlen \<lfloor>q\<rfloor> - 1 else - bitlen (\<lceil>1 / q\<rceil> - 1))"

text \<open>The nearest integer, a tie going to the even one.\<close>

definition round_even :: "real \<Rightarrow> int" where
  "round_even x =
     (let f = \<lfloor>x\<rfloor>
      in if x - of_int f < 1 / 2 then f
         else if 1 / 2 < x - of_int f then f + 1
         else if even f then f else f + 1)"

text \<open>
  The binary64 result of an operation whose exact result is \<open>q\<close>: round to nearest,
  ties to even, with 53 significant bits, exponents from -1022 (below, the spacing
  stays \<open>2^-1074\<close>) and overflow to an infinity from \<open>2^1024\<close> on.
\<close>

definition binary64 :: "real \<Rightarrow> js_number" where
  "binary64 q =
     (if q = 0 then Num 0
      else let e = max (floor_log2 \<bar>q\<bar>) (- 1022) - 52;
               r = of_int (round_even (q / 2 powi e)) * 2 powi e
           in if 2 ^ 1024 \<le> r then PosInfinity
              else if r \<le> - (2 ^ 1024) then NegInfinity
              else Num r)"

fun js_div :: "js_number \<Rightarrow> js_number \<Rightarrow> js_number" where
  "js_div (Num x) (Num y) =
     (if y = 0 then (if x = 0 then NaN else if 0 < x then PosInfinity else NegInfinity)
      else binary64 (x / y))"
| "js_div (Num x) PosInfinity = Num 0"
| "js_div (Num x) NegInfinity = Num 0"
| "js_div PosInfinity (Num y) = (if 0 \<le> y then PosInfinity else NegInfinity)"
| "js_div NegInfinity (Num y) = (if 0 \<le> y then NegInfinity else PosInfinity)"
| "js_div _ _ = NaN"

fun js_mul :: "js_number \<Rightarrow> js_number \<Rightarrow> js_number" where
  "js_mul (Num x) (Num y) = binary64 (x * y)"
| "js_mul (Num x) PosInfinity =
     (if x = 0 then NaN else if 0 < x then PosInfinity else NegInfinity)"
| "js_mul (Num x) NegInfinity =
     (if x = 0 then NaN else if 0 < x then NegInfinity else PosInfinity)"
| "js_mul PosInfinity (Num y) =
     (if y = 0 then NaN else if 0 < y then PosInfinity else NegInfinity)"
| "js_mul NegInfinity (Num y) =
     (if y = 0 then NaN else if 0 < y then NegInfinity else PosInfinity)"
| "js_mul PosInfinity PosInfinity = PosInfinity"
| "js_mul PosInfinity NegInfinity = NegInfinity"
| "js_mul NegInfinity PosInfinity = NegInfinity"
| "js_mul NegInfinity NegInfinity = PosInfinity"
| "js_mul _ _ = NaN"

text \<open>\<^verbatim>\<open>a > b\<close>, false whenever an operand is NaN.\<close>

fun js_gt :: "js_number \<Rightarrow> js_number \<Rightarrow> bool" where
  "js_gt (Num x) (Num y) = (y < x)"
| "js_gt PosInfinity (Num y) = True"
| "js_gt (Num x) NegInfinity = True"
| "js_gt PosInfinity NegInfinity = True"
| "js_gt _ _ = False"

text \<open>\<^verbatim>\<open>Math.round\<close>: the nearest integer, a tie going up.\<close>

fun Math_round :: "js_number \<Rightarrow> js_number" where
  "Math_round (Num x) = Num (of_int \<lfloor>x + 1 / 2\<rfloor>)"
| "Math_round n = n"

definition pct :: "js_number \<Rightarrow> js_number \<Rightarrow> js_number" where
  "pct val maxv =
     (if js_gt maxv (Num 0) then Math_round (js_mul (js_div val maxv) (Num 100))
      else Num 0)"

text \<open>
  \<^verbatim>\<open>RunTab\<close> shows the bar for the job, unless the job is idle:
  \<^verbatim>\<open>{job.status !== "idle" && <ProgressBar value={job.progress} max={job.total} />}\<close>.
\<close>

definition progress_bar :: "JobState \<Rightarrow> js_number option" where
  "progress_bar j =
     (if status j \<noteq> Idle
      then Some (pct (Num (of_int (progress j))) (Num (of_int (total_j j))))
      else None)"

section \<open>Properties of the Mapping list\<close>

lemma map_lines_zip:
  "i + length ols \<le> length nls \<Longrightarrow>
   map_lines i ols nls = Inr (map2 (\<lambda>a b. \<lparr>old = trim a, new = trim b\<rparr>) ols (drop i nls))"
proof (induction ols arbitrary: i)
  case Nil
  then show ?case by simp
next
  case (Cons a ols)
  then have lt: "i < length nls" by simp
  from Cons.prems have "Suc i + length ols \<le> length nls" by simp
  from Cons.IH [OF this] lt show ?case
    by (simp add: Cons_nth_drop_Suc [symmetric])
qed

lemma mappings_paired: "mappings olds news = Inr (paired olds news)"
  by (auto simp: mappings_def paired_def Let_def map_lines_zip)

lemmas text_simps = ascii_def blank_def truthy_def trim_def is_ws_def white_space_def

text \<open>
  C2. When the old-names and the new-names input have equally many non-blank lines,
  the Mapping list is never an exception, has one pair per line, and its i-th pair is
  the trimmed i-th non-blank old line with the trimmed i-th non-blank new line, in
  input order. When the counts differ, or one input has no non-blank line, the list
  is empty.
\<close>

theorem mappings_pair_lines_in_order:
  "(length (nonblank_lines olds) = length (nonblank_lines news) \<longrightarrow>
      (\<exists>ms. mappings olds news = Inr ms \<and>
            length ms = length (nonblank_lines olds) \<and>
            (\<forall>i < length ms.
               ms ! i = \<lparr>old = trim (nonblank_lines olds ! i),
                         new = trim (nonblank_lines news ! i)\<rparr>))) \<and>
   (length (nonblank_lines olds) \<noteq> length (nonblank_lines news) \<or>
    nonblank_lines olds = [] \<or> nonblank_lines news = [] \<longrightarrow>
      mappings olds news = Inr [])"
  by (auto simp: mappings_paired paired_def)

theorem mappings_pair_lines_witness:
  "nonblank_lines (ascii ''a.mkv\<newline>  \<newline> b.mkv '') = [ascii ''a.mkv'', ascii '' b.mkv ''] \<and>
   nonblank_lines (ascii ''\<newline>x.mkv \<newline>y.mkv'') = [ascii ''x.mkv '', ascii ''y.mkv''] \<and>
   mappings (ascii ''a.mkv\<newline>  \<newline> b.mkv '') (ascii ''\<newline>x.mkv \<newline>y.mkv'') =
     Inr [\<lparr>old = ascii ''a.mkv'', new = ascii ''x.mkv''\<rparr>,
          \<lparr>old = ascii ''b.mkv'', new = ascii ''y.mkv''\<rparr>] \<and>
   mappings (ascii ''a.mkv\<newline>b.mkv'') (ascii ''x.mkv'') = Inr []"
proof -
  let ?o = "ascii ''a.mkv\<newline>  \<newline> b.mkv ''" and ?n = "ascii ''\<newline>x.mkv \<newline>y.mkv''"
  have o: "nonblank_lines ?o = [ascii ''a.mkv'', ascii '' b.mkv '']"
    by (simp add: nonblank_lines_def text_simps)
  have n: "nonblank_lines ?n = [ascii ''x.mkv '', ascii ''y.mkv'']"
    by (simp add: nonblank_lines_def text_simps)
  from mappings_pair_lines_in_order [of ?o ?n] o n
  obtain ms where ms: "mappings ?o ?n = Inr ms" "length ms = 2"
    and nth: "\<forall>i<length ms. ms ! i = \<lparr>old = trim (nonblank_lines ?o ! i), new = trim (nonblank_lines ?n ! i)\<rparr>"
    by auto
  from ms(2) nth have "ms ! 0 = \<lparr>old = trim (nonblank_lines ?o ! 0), new = trim (nonblank_lines ?n ! 0)\<rparr>"
    and "ms ! 1 = \<lparr>old = trim (nonblank_lines ?o ! 1), new = trim (nonblank_lines ?n ! 1)\<rparr>"
    by auto
  then have "ms ! 0 = \<lparr>old = ascii ''a.mkv'', new = ascii ''x.mkv''\<rparr>"
    and "ms ! 1 = \<lparr>old = ascii ''b.mkv'', new = ascii ''y.mkv''\<rparr>"
    unfolding o n by (simp_all add: text_simps)
  with ms(2) have "ms = [\<lparr>old = ascii ''a.mkv'', new = ascii ''x.mkv''\<rparr>,
          \<lparr>old = ascii ''b.mkv'', new = ascii ''y.mkv''\<rparr>]"
    by (cases ms; cases "tl ms") auto
  moreover have "length (nonblank_lines (ascii ''a.mkv\<newline>b.mkv'')) \<noteq> length (nonblank_lines (ascii ''x.mkv''))"
    by (simp add: nonblank_lines_def text_simps)
  with mappings_pair_lines_in_order [of "ascii ''a.mkv\<newline>b.mkv''" "ascii ''x.mkv''"]
  have "mappings (ascii ''a.mkv\<newline>b.mkv'') (ascii ''x.mkv'') = Inr []"
    by blast
  ultimately show ?thesis using o n ms(1) by simp
qed

section \<open>Properties of the start request\<close>

lemma handleStart_paired:
  "handleStart app =
     Inr (if \<not> ready app \<or> paired (oldNames app) (newNames app) = [] then (app, None)
          else (app\<lparr>job :=
                      \<lparr>jobId = None, status = Starting, progress = 0,
                       total_j = int (length (paired (oldNames app) (newNames app))),
                       logs = [connecting_line],
                       error = None, needsOtp = False, sessionString_j = None,
                       renamed = 0, failed = 0, notFound = 0\<rparr>,
                    activeTab := TabRun\<rparr>,
                Some \<lparr>req_api_id = apiId app, req_api_hash = apiHash app,
                      req_phone = phone app, req_src_channel = srcChannel app,
                      req_dst_channel = dstChannel app,
                      req_delete_from_src = deleteFromSrc app,
                      req_session_string =
                        (if truthy (sessionString app) then Some (sessionString app)
                         else None),
                      req_mappings = paired (oldNames app) (newNames app)\<rparr>))"
  by (simp add: handleStart_def mappings_paired)

lemma ascii_eq_Nil: "(ascii s = []) = (s = [])"
  by (simp add: ascii_def)

lemma paired_filled: "paired (ascii ''a.mkv'') (ascii ''b.mkv'') = [\<lparr>old = ascii ''a.mkv'', new = ascii ''b.mkv''\<rparr>]"
  by (simp add: paired_def nonblank_lines_def text_simps)

lemma mappings_filled:
  "mappings (ascii ''a.mkv'') (ascii ''b.mkv'') = Inr [\<lparr>old = ascii ''a.mkv'', new = ascii ''b.mkv''\<rparr>]"
  by (simp add: mappings_paired paired_filled)

lemma handleStart_filled:
  "handleStart filled_app = Inr (filled_app\<lparr>job := started_job, activeTab := TabRun\<rparr>, Some filled_request)"
  by (simp add: handleStart_paired filled_app_def initial_app_def ready_def truthy_def
      paired_filled started_job_def filled_request_def ascii_eq_Nil)

text \<open>
  C1, as stated, fails: a required field that holds only white space is blank, yet
  the start proceeds. With a phone number of one space and every other field filled,
  \<open>handleStart\<close> resets the job to \<^verbatim>\<open>starting\<close> and issues the start request.
\<close>

theorem blank_phone_start_proceeds:
  "blank (phone blank_phone_app) \<and>
   handleStart blank_phone_app =
     Inr (blank_phone_app\<lparr>job := started_job, activeTab := TabRun\<rparr>,
          Some (filled_request\<lparr>req_phone := ascii '' ''\<rparr>))"
proof -
  have "blank (phone blank_phone_app)"
    by (simp add: blank_phone_app_def text_simps)
  moreover have "handleStart blank_phone_app =
     Inr (blank_phone_app\<lparr>job := started_job, activeTab := TabRun\<rparr>,
          Some (filled_request\<lparr>req_phone := ascii '' ''\<rparr>))"
    by (simp add: handleStart_paired blank_phone_app_def filled_app_def initial_app_def
        ready_def truthy_def paired_filled started_job_def filled_request_def ascii_eq_Nil)
  ultimately show ?thesis by simp
qed

text \<open>
  C1, amended. \<open>handleStart\<close> rejects a start request, leaving the whole state as it
  was and issuing no request, exactly when the Mapping list is empty or one of API
  ID, API hash, phone number, source channel and destination channel is the empty
  string; a field that holds only white space counts as filled. Otherwise the start
  proceeds: the job is replaced by a new one in \<^verbatim>\<open>starting\<close> with no identifier
  yet, progress 0 and total the number of Mappings, and the start request carrying
  the Mapping list is issued.
\<close>

theorem start_rejected_iff_empty:
  "\<exists>ms. mappings (oldNames app) (newNames app) = Inr ms \<and>
     (apiId app = [] \<or> apiHash app = [] \<or> phone app = [] \<or> srcChannel app = [] \<or>
      dstChannel app = [] \<or> ms = [] \<longrightarrow> handleStart app = Inr (app, None)) \<and>
     (apiId app \<noteq> [] \<and> apiHash app \<noteq> [] \<and> phone app \<noteq> [] \<and> srcChannel app \<noteq> [] \<and>
      dstChannel app \<noteq> [] \<and> ms \<noteq> [] \<longrightarrow>
        (\<exists>app' req. handleStart app = Inr (app', Some req) \<and>
           jobId (job app') = None \<and> status (job app') = Starting \<and>
           progress (job app') = 0 \<and> total_j (job app') = int (length ms) \<and>
           req_mappings req = ms))"
  by (auto simp: handleStart_paired mappings_paired ready_def truthy_def)

theorem start_rejected_iff_empty_witness:
  "handleStart (filled_app\<lparr>dstChannel := []\<rparr>) = Inr (filled_app\<lparr>dstChannel := []\<rparr>, None) \<and>
   handleStart (filled_app\<lparr>newNames := []\<rparr>) = Inr (filled_app\<lparr>newNames := []\<rparr>, None) \<and>
   (\<exists>app' req. handleStart filled_app = Inr (app', Some req) \<and>
      status (job app') = Starting \<and> progress (job app') = 0 \<and> total_j (job app') = 1 \<and>
      req_mappings req = [\<lparr>old = ascii ''a.mkv'', new = ascii ''b.mkv''\<rparr>])"
proof -
  have "dstChannel (filled_app\<lparr>dstChannel := []\<rparr>) = []"
    by simp
  with start_rejected_iff_empty [of "filled_app\<lparr>dstChannel := []\<rparr>"]
  have a: "handleStart (filled_app\<lparr>dstChannel := []\<rparr>) = Inr (filled_app\<lparr>dstChannel := []\<rparr>, None)"
    by blast
  have "mappings (oldNames (filled_app\<lparr>newNames := []\<rparr>)) (newNames (filled_app\<lparr>newNames := []\<rparr>)) = Inr []"
    by (simp add: filled_app_def initial_app_def mappings_paired paired_def nonblank_lines_def text_simps)
  with start_rejected_iff_empty [of "filled_app\<lparr>newNames := []\<rparr>"]
  have b: "handleStart (filled_app\<lparr>newNames := []\<rparr>) = Inr (filled_app\<lparr>newNames := []\<rparr>, None)"
    by auto
  have m: "mappings (oldNames filled_app) (newNames filled_app) = Inr [\<lparr>old = ascii ''a.mkv'', new = ascii ''b.mkv''\<rparr>]"
    by (simp add: filled_app_def initial_app_def mappings_filled)
  have f: "apiId filled_app \<noteq> [] \<and> apiHash filled_app \<noteq> [] \<and> phone filled_app \<noteq> [] \<and>
      srcChannel filled_app \<noteq> [] \<and> dstChannel filled_app \<noteq> []"
    by (simp add: filled_app_def initial_app_def ascii_eq_Nil)
  from start_rejected_iff_empty [of filled_app] m f
  have "\<exists>app' req. handleStart filled_app = Inr (app', Some req) \<and>
      status (job app') = Starting \<and> progress (job app') = 0 \<and> total_j (job app') = 1 \<and>
      req_mappings req = [\<lparr>old = ascii ''a.mkv'', new = ascii ''b.mkv''\<rparr>]"
    by auto
  with a b show ?thesis by blast
qed

text \<open>
  C3, as stated, fails: \<open>startTask\<close>, the start operation of the session-string
  client, requires the session string. With every other field filled and one file
  name given, an empty session string makes it refuse with an alert and post nothing.
\<close>

theorem empty_session_string_refused:
  "length (namesList (newFilenames no_session_app)) = 1 \<and>
   sessionString_s no_session_app = [] \<and>
   startTask no_session_app = Alert (ascii ''Please fill in all configuration fields.'')"
  by (simp add: startTask_def no_session_app_def namesList_def truthy_def trim_def
      is_ws_def white_space_def ascii_def)

text \<open>
  C3, amended. In \<open>handleStart\<close>, the start operation of the client that logs in by
  phone, the session token is optional: with API ID, API hash, phone number, source
  channel and destination channel non-empty and a non-empty Mapping list the request
  is issued whatever the token is, and the token is transmitted as null exactly when
  it is the empty string; any other token, one of white space only included, is
  transmitted as it is. In \<open>startTask\<close>, the start operation of the session-string
  client, the session string is required: when it is empty nothing is posted.
\<close>

theorem session_token_optional_by_phone:
  "(apiId app \<noteq> [] \<and> apiHash app \<noteq> [] \<and> phone app \<noteq> [] \<and> srcChannel app \<noteq> [] \<and>
    dstChannel app \<noteq> [] \<and> mappings (oldNames app) (newNames app) = Inr ms \<and> ms \<noteq> [] \<longrightarrow>
      (\<exists>app' req. handleStart app = Inr (app', Some req) \<and>
         req_session_string req =
           (if sessionString app = [] then None else Some (sessionString app)))) \<and>
   (sessionString_s sapp = [] \<longrightarrow> (\<exists>text. startTask sapp = Alert text))"
  by (auto simp: handleStart_paired mappings_paired ready_def truthy_def startTask_def)

theorem session_token_optional_witness:
  "(\<exists>app'. handleStart filled_app = Inr (app', Some filled_request)) \<and>
   sessionString filled_app = [] \<and> req_session_string filled_request = None \<and>
   (\<exists>app' req. handleStart (filled_app\<lparr>sessionString := ascii '' ''\<rparr>) = Inr (app', Some req) \<and>
      req_session_string req = Some (ascii '' '')) \<and>
   (\<exists>text. startTask no_session_app = Alert text)"
proof -
  have f: "apiId filled_app \<noteq> [] \<and> apiHash filled_app \<noteq> [] \<and> phone filled_app \<noteq> [] \<and>
      srcChannel filled_app \<noteq> [] \<and> dstChannel filled_app \<noteq> []"
    by (simp add: filled_app_def initial_app_def ascii_eq_Nil)
  have m: "mappings (oldNames filled_app) (newNames filled_app) = Inr [\<lparr>old = ascii ''a.mkv'', new = ascii ''b.mkv''\<rparr>]"
    by (simp add: filled_app_def initial_app_def mappings_filled)
  have s: "sessionString filled_app = []"
    by (simp add: filled_app_def initial_app_def)
  let ?w = "filled_app\<lparr>sessionString := ascii '' ''\<rparr>"
  from session_token_optional_by_phone [of ?w "[\<lparr>old = ascii ''a.mkv'', new = ascii ''b.mkv''\<rparr>]" no_session_app] f m
  have w: "\<exists>app' req. handleStart ?w = Inr (app', Some req) \<and> req_session_string req = Some (ascii '' '')"
    by (simp add: ascii_def)
  have "sessionString_s no_session_app = []"
    by (simp add: no_session_app_def)
  with session_token_optional_by_phone [of filled_app "[]" no_session_app]
  have t: "\<exists>text. startTask no_session_app = Alert text"
    by blast
  show ?thesis
    using w t s by (simp add: handleStart_filled filled_request_def)
qed

section \<open>Properties of the code form\<close>

lemma job_submitOtp: "job (fst (handleSubmitOtp app resolved)) = job app"
  by (simp add: handleSubmitOtp_def split: option.splits)

lemma job_otp_onClick: "job (fst (otp_onClick app resolved)) = job app"
  by (simp add: otp_onClick_def job_submitOtp)

lemma job_otp_onKeyDown: "job (fst (otp_onKeyDown app key resolved)) = job app"
  by (simp add: otp_onKeyDown_def job_submitOtp)

lemma job_otp_onChange: "job (otp_onChange app v) = job app"
  by (simp add: otp_onChange_def)

text \<open>
  C6. In every state in which \<^verbatim>\<open>needsOtp\<close> is false, invoking the OTP-submit
  operation, by a click on Submit or by the Enter key in the code field, the two
  places that call it, is a no-op: no code is posted and the whole state, the job
  state with it, is as it was. In every state whatever, it leaves the job state as
  it was. While \<^verbatim>\<open>needsOtp\<close> is true, a click on Submit posts the code unless
  the job has no identifier, or an empty one, or the code field is empty.
\<close>

theorem otp_submit_noop_without_needsOtp:
  "(\<not> needsOtp (job app) \<longrightarrow>
      otp_onClick app resolved = (app, None) \<and>
      otp_onKeyDown app key resolved = (app, None) \<and>
      step app (SubmitOtp resolved) = app \<and>
      step app (OtpKeyDown key resolved) = app) \<and>
   job (fst (otp_onClick app resolved)) = job app \<and>
   job (fst (otp_onKeyDown app key resolved)) = job app \<and>
   (needsOtp (job app) \<longrightarrow>
      (snd (otp_onClick app resolved) = None) =
        (jobId (job app) = None \<or> jobId (job app) = Some [] \<or> otp app = []))"
  by (auto simp: otp_onClick_def otp_onKeyDown_def otp_form_rendered_def step_def
      job_submitOtp handleSubmitOtp_def truthy_def split: option.splits)

theorem otp_submit_noop_witness:
  "\<not> needsOtp (job scanning_app) \<and>
   jobId (job scanning_app) = Some (ascii ''job1'') \<and> otp scanning_app = ascii ''12345'' \<and>
   otp_onClick scanning_app True = (scanning_app, None) \<and>
   otp_onKeyDown scanning_app (ascii ''Enter'') True = (scanning_app, None) \<and>
   otp_onClick awaiting_app True =
     (awaiting_app\<lparr>otp := []\<rparr>,
      Some \<lparr>otp_job_id = ascii ''job1'', otp_code = ascii ''12345''\<rparr>)"
proof -
  have s: "\<not> needsOtp (job scanning_app)" "jobId (job scanning_app) = Some (ascii ''job1'')"
    "otp scanning_app = ascii ''12345''"
    by (simp_all add: scanning_app_def started_job_def)
  with otp_submit_noop_without_needsOtp [of scanning_app True "ascii ''Enter''"]
  have "otp_onClick scanning_app True = (scanning_app, None) \<and>
      otp_onKeyDown scanning_app (ascii ''Enter'') True = (scanning_app, None)"
    by blast
  moreover have "otp_onClick awaiting_app True =
     (awaiting_app\<lparr>otp := []\<rparr>,
      Some \<lparr>otp_job_id = ascii ''job1'', otp_code = ascii ''12345''\<rparr>)"
    by (simp add: otp_onClick_def otp_form_rendered_def handleSubmitOtp_def awaiting_app_def
        scanning_app_def started_job_def truthy_def ascii_eq_Nil)
  ultimately show ?thesis using s by simp
qed

section \<open>Properties of the event handlers\<close>

text \<open>
  C9. A log event changes only the logs of the job state, which gain the message at
  the end: identifier, status, progress, total, needsOtp, error, session string,
  renamed, failed and notFound keep their values.
\<close>

theorem log_event_changes_only_logs:
  "onmessage prev (LogMsg message) = prev\<lparr>logs := logs prev @ [message]\<rparr> \<and>
   jobId (onmessage prev (LogMsg message)) = jobId prev \<and>
   status (onmessage prev (LogMsg message)) = status prev \<and>
   progress (onmessage prev (LogMsg message)) = progress prev \<and>
   total_j (onmessage prev (LogMsg message)) = total_j prev \<and>
   needsOtp (onmessage prev (LogMsg message)) = needsOtp prev \<and>
   error (onmessage prev (LogMsg message)) = error prev \<and>
   sessionString_j (onmessage prev (LogMsg message)) = sessionString_j prev \<and>
   renamed (onmessage prev (LogMsg message)) = renamed prev \<and>
   failed (onmessage prev (LogMsg message)) = failed prev \<and>
   notFound (onmessage prev (LogMsg message)) = notFound prev"
  by (simp add: onmessage_def)

theorem log_event_changes_only_logs_witness:
  "onmessage started_job (LogMsg (ascii ''Scanning''))
     = started_job\<lparr>logs := [connecting_line, ascii ''Scanning'']\<rparr> \<and>
   status (onmessage started_job (LogMsg (ascii ''Scanning''))) = Starting \<and>
   total_j (onmessage started_job (LogMsg (ascii ''Scanning''))) = 1"
  using log_event_changes_only_logs [of started_job "ascii ''Scanning''"]
  by (simp add: started_job_def)

lemma logs_onmessage: "prefix (logs prev) (logs (onmessage prev d))"
  by (cases d) (simp_all add: onmessage_def)

lemma logs_resume: "prefix (logs (job app)) (logs (job (fst (handleStart_resume app r))))"
  by (cases r) (simp_all add: handleStart_resume_def start_failed_def)

lemma logs_step: "e \<noteq> ClickStart \<Longrightarrow> prefix (logs (job app)) (logs (job (step app e)))"
  by (cases e)
     (simp_all add: step_def logs_onmessage logs_resume job_otp_onClick job_otp_onKeyDown
        job_otp_onChange onerror_def)

lemma run_events_Nil: "run_events app [] = app"
  by (simp add: run_events_def)

lemma run_events_Cons: "run_events app (e # es) = run_events (step app e) es"
  by (simp add: run_events_def)

lemma logs_run_events:
  "ClickStart \<notin> set es \<Longrightarrow> prefix (logs (job app)) (logs (job (run_events app es)))"
proof (induction es arbitrary: app)
  case Nil
  then show ?case by (simp add: run_events_Nil)
next
  case (Cons e es)
  from Cons.prems have ne: "e \<noteq> ClickStart" and rest: "ClickStart \<notin> set es"
    by auto
  from ne have "prefix (logs (job app)) (logs (job (step app e)))"
    by (rule logs_step)
  also from rest have "prefix (logs (job (step app e))) (logs (job (run_events (step app e) es)))"
    by (rule Cons.IH)
  finally show ?case
    by (simp add: run_events_Cons)
qed

text \<open>
  C7. Within one job the logs are append-only. Every event other than a click on
  Start (the answer to the start request, a WebSocket message or error, a submitted
  code) leaves the logs as a prefix of the new logs, and so does every sequence of
  such events. A click on Start either is rejected and changes nothing, or starts a
  new job, whose logs begin afresh with the connecting line.
\<close>

theorem logs_append_only:
  "(e \<noteq> ClickStart \<longrightarrow> prefix (logs (job app)) (logs (job (step app e)))) \<and>
   (ClickStart \<notin> set es \<longrightarrow> prefix (logs (job app)) (logs (job (run_events app es)))) \<and>
   (step app ClickStart = app \<or>
    (\<exists>req. handleStart app = Inr (step app ClickStart, Some req) \<and>
           logs (job (step app ClickStart)) = [connecting_line]))"
proof -
  have "step app ClickStart = app \<or>
    (\<exists>req. handleStart app = Inr (step app ClickStart, Some req) \<and>
           logs (job (step app ClickStart)) = [connecting_line])"
    by (simp add: step_def handleStart_paired)
  then show ?thesis
    using logs_step logs_run_events by blast
qed

theorem logs_append_only_witness:
  "logs (job (run_events scanning_app
      [WsMessage (LogMsg (ascii ''one'')), WsError, SubmitOtp True,
       StartAnswer (FetchFailed (ascii ''offline''))]))
     = [connecting_line, ascii ''one'', failed_line (ascii ''offline'')] \<and>
   prefix (logs (job scanning_app))
     (logs (job (run_events scanning_app
      [WsMessage (LogMsg (ascii ''one'')), WsError, SubmitOtp True,
       StartAnswer (FetchFailed (ascii ''offline''))])))"
proof -
  let ?es = "[WsMessage (LogMsg (ascii ''one'')), WsError, SubmitOtp True,
       StartAnswer (FetchFailed (ascii ''offline''))]"
  have "ClickStart \<notin> set ?es"
    by simp
  with logs_append_only [of ClickStart scanning_app ?es]
  have "prefix (logs (job scanning_app)) (logs (job (run_events scanning_app ?es)))"
    by blast
  moreover have "logs (job (run_events scanning_app ?es))
     = [connecting_line, ascii ''one'', failed_line (ascii ''offline'')]"
    by (simp add: run_events_def step_def onmessage_def onerror_def otp_onClick_def
        otp_form_rendered_def handleSubmitOtp_def
        handleStart_resume_def start_failed_def scanning_app_def started_job_def
        filled_app_def initial_app_def truthy_def ascii_eq_Nil)
  ultimately show ?thesis by simp
qed






section \<open>Properties of the matcher\<close>

lemma find_filter_hd:
  "find P xs = (if filter P xs = [] then None else Some (hd (filter P xs)))"
  by (induction xs) auto

lemma find_None_iff_all: "(find P xs = None) = (\<forall>x \<in> set xs. \<not> P x)"
  by (induction xs) auto

text \<open>
  C4. The matcher tries the tiers in the order exact, normalized, episode number, and
  the first tier with a match decides. When some entry has the requested old name
  byte for byte, the result is the first such entry with tier Exact, whatever entries
  match after normalization and wherever they stand. When none is equal but some
  entry is equal after canonicalization, the result is the first of those with tier
  Normalized. When neither tier matches and the request has an episode number that
  some entry shares, the result is the first of those with tier Episode. Otherwise
  there is no match.
\<close>

theorem exact_match_chosen_first:
  "((\<exists>e \<in> set entries. fileName e = oldName) \<longrightarrow>
      fuzzy_match canon episode oldName entries =
        Some (hd (filter (\<lambda>e. fileName e = oldName) entries), Exact)) \<and>
   ((\<forall>e \<in> set entries. fileName e \<noteq> oldName) \<and>
    (\<exists>e \<in> set entries. canon (fileName e) = canon oldName) \<longrightarrow>
      fuzzy_match canon episode oldName entries =
        Some (hd (filter (\<lambda>e. canon (fileName e) = canon oldName) entries), Normalized)) \<and>
   ((\<forall>e \<in> set entries. fileName e \<noteq> oldName \<and> canon (fileName e) \<noteq> canon oldName) \<and>
    episode oldName = Some n \<and> (\<exists>e \<in> set entries. episode (fileName e) = Some n) \<longrightarrow>
      fuzzy_match canon episode oldName entries =
        Some (hd (filter (\<lambda>e. episode (fileName e) = Some n) entries), Episode)) \<and>
   ((\<forall>e \<in> set entries. fileName e \<noteq> oldName \<and> canon (fileName e) \<noteq> canon oldName \<and>
        (episode oldName = None \<or> episode (fileName e) \<noteq> episode oldName)) \<longrightarrow>
      fuzzy_match canon episode oldName entries = None)"
proof -
  have exact: "(exact_tier oldName entries = None) = (\<forall>e \<in> set entries. fileName e \<noteq> oldName)"
    by (simp add: exact_tier_def find_None_iff_all)
  have norm: "(normalized_tier canon oldName entries = None) =
      (\<forall>e \<in> set entries. canon (fileName e) \<noteq> canon oldName)"
    by (simp add: normalized_tier_def find_None_iff_all)
  have epi: "(episode_tier episode oldName entries = None) =
      (\<forall>e \<in> set entries. episode oldName = None \<or> episode (fileName e) \<noteq> episode oldName)"
    by (cases "episode oldName") (auto simp: episode_tier_def find_None_iff_all)
  have 1: "(\<exists>e \<in> set entries. fileName e = oldName) \<longrightarrow>
      fuzzy_match canon episode oldName entries =
        Some (hd (filter (\<lambda>e. fileName e = oldName) entries), Exact)"
    by (auto simp: fuzzy_match_def exact_tier_def find_filter_hd filter_empty_conv)
  have 2: "(\<forall>e \<in> set entries. fileName e \<noteq> oldName) \<and>
    (\<exists>e \<in> set entries. canon (fileName e) = canon oldName) \<longrightarrow>
      fuzzy_match canon episode oldName entries =
        Some (hd (filter (\<lambda>e. canon (fileName e) = canon oldName) entries), Normalized)"
    using exact
    by (auto simp: fuzzy_match_def normalized_tier_def find_filter_hd filter_empty_conv)
  have 3: "(\<forall>e \<in> set entries. fileName e \<noteq> oldName \<and> canon (fileName e) \<noteq> canon oldName) \<and>
    episode oldName = Some n \<and> (\<exists>e \<in> set entries. episode (fileName e) = Some n) \<longrightarrow>
      fuzzy_match canon episode oldName entries =
        Some (hd (filter (\<lambda>e. episode (fileName e) = Some n) entries), Episode)"
  proof
    assume a: "(\<forall>e \<in> set entries. fileName e \<noteq> oldName \<and> canon (fileName e) \<noteq> canon oldName) \<and>
      episode oldName = Some n \<and> (\<exists>e \<in> set entries. episode (fileName e) = Some n)"
    then have "exact_tier oldName entries = None" "normalized_tier canon oldName entries = None"
      using exact norm by auto
    moreover from a have "episode_tier episode oldName entries =
        Some (hd (filter (\<lambda>e. episode (fileName e) = Some n) entries))"
      by (auto simp: episode_tier_def find_filter_hd filter_empty_conv)
    ultimately show "fuzzy_match canon episode oldName entries =
        Some (hd (filter (\<lambda>e. episode (fileName e) = Some n) entries), Episode)"
      by (simp add: fuzzy_match_def)
  qed
  have 4: "(\<forall>e \<in> set entries. fileName e \<noteq> oldName \<and> canon (fileName e) \<noteq> canon oldName \<and>
        (episode oldName = None \<or> episode (fileName e) \<noteq> episode oldName)) \<longrightarrow>
      fuzzy_match canon episode oldName entries = None"
  proof
    assume a: "\<forall>e \<in> set entries. fileName e \<noteq> oldName \<and> canon (fileName e) \<noteq> canon oldName \<and>
        (episode oldName = None \<or> episode (fileName e) \<noteq> episode oldName)"
    then have "exact_tier oldName entries = None" "normalized_tier canon oldName entries = None"
      "episode_tier episode oldName entries = None"
      using exact norm epi by auto
    then show "fuzzy_match canon episode oldName entries = None"
      by (simp add: fuzzy_match_def)
  qed
  from 1 2 3 4 show ?thesis by blast
qed

theorem exact_match_chosen_first_witness:
  "lower_case (fileName upper_entry) = lower_case (ascii ''old1.mkv'') \<and>
   fileName upper_entry \<noteq> ascii ''old1.mkv'' \<and>
   fuzzy_match lower_case first_digit_run (ascii ''old1.mkv'') [upper_entry, same_entry]
     = Some (same_entry, Exact) \<and>
   fuzzy_match lower_case first_digit_run (ascii ''old1.mkv'') [upper_entry]
     = Some (upper_entry, Normalized)"
proof -
  have u: "lower_case (fileName upper_entry) = lower_case (ascii ''old1.mkv'')"
    "fileName upper_entry \<noteq> ascii ''old1.mkv''"
    by (simp_all add: upper_entry_def lower_case_def ascii_def)
  have s: "fileName same_entry = ascii ''old1.mkv''"
    by (simp add: same_entry_def)
  from exact_match_chosen_first [of "[upper_entry, same_entry]" "ascii ''old1.mkv''" lower_case first_digit_run 1]
    u s
  have a: "fuzzy_match lower_case first_digit_run (ascii ''old1.mkv'') [upper_entry, same_entry]
     = Some (same_entry, Exact)"
    by simp
  from exact_match_chosen_first [of "[upper_entry]" "ascii ''old1.mkv''" lower_case first_digit_run 1] u
  have b: "fuzzy_match lower_case first_digit_run (ascii ''old1.mkv'') [upper_entry]
     = Some (upper_entry, Normalized)"
    by simp
  from u a b show ?thesis by simp
qed

section \<open>Properties of progress and total\<close>

lemma within_total_status:
  "within_total n (status_event j) = (j_progress j \<le> j_total j \<and> j_total j = n)"
  by (simp add: within_total_def status_event_def)

lemma process_mapping_counts:
  "process_mapping E del j m = (ns, j') \<Longrightarrow>
   j_progress j' = j_progress j + 1 \<and> j_total j' = j_total j"
  by (auto simp: process_mapping_def split: if_splits option.splits prod.splits)

lemma fatal_within:
  "j_progress j \<le> j_total j \<Longrightarrow> \<forall>d \<in> set (fatal E j n). within_total (j_total j) d"
  by (simp add: fatal_def within_total_def status_event_def)

lemma run_mappings_within:
  "j_progress j + int (length ms) \<le> j_total j \<Longrightarrow>
   run_mappings E del k j ms = (evs, j', lost) \<Longrightarrow>
   (\<forall>d \<in> set evs. within_total (j_total j) d) \<and>
   j_progress j' \<le> j_total j \<and> j_total j' = j_total j"
proof (induction ms arbitrary: k j evs j' lost)
  case Nil
  then show ?case by simp
next
  case (Cons m ms)
  from Cons.prems(1) have le: "j_progress j \<le> j_total j"
    by simp
  show ?case
  proof (cases "transport_lost E k")
    case True
    with Cons.prems(2) have "evs = fatal E j TransportLost" "j' = j"
      by auto
    with le fatal_within [OF le] show ?thesis
      by simp
  next
    case no_loss: False
    show ?thesis
    proof (cases "stop_seen E k")
      case True
      with no_loss Cons.prems(2) le show ?thesis
        by (auto simp: within_total_def)
    next
      case False
      obtain ns j1 where p: "process_mapping E del j m = (ns, j1)"
        by (cases "process_mapping E del j m")
      obtain evs1 j2 lost1 where r: "run_mappings E del (Suc k) j1 ms = (evs1, j2, lost1)"
        by (cases "run_mappings E del (Suc k) j1 ms")
      from p have c: "j_progress j1 = j_progress j + 1" "j_total j1 = j_total j"
        using process_mapping_counts by blast+
      with Cons.prems(1) have "j_progress j1 + int (length ms) \<le> j_total j1"
        by simp
      from Cons.IH [OF this r] c
      have ih: "\<forall>d \<in> set evs1. within_total (j_total j) d" "j_progress j2 \<le> j_total j"
        "j_total j2 = j_total j"
        by simp_all
      from Cons.prems(1) c have "within_total (j_total j) (status_event j1)"
        by (simp add: within_total_status)
      moreover from Cons.prems(2) no_loss False p r
      have "evs = map (\<lambda>n. LogMsg (wording E n (old m))) ns @ status_event j1 # evs1" "j' = j2"
        by simp_all
      ultimately show ?thesis
        using ih by (auto simp: within_total_def)
    qed
  qed
qed

lemma otp_rounds_within:
  "j_progress j \<le> j_total j \<Longrightarrow> otp_rounds E j codes = (evs, ok) \<Longrightarrow>
   \<forall>d \<in> set evs. within_total (j_total j) d"
proof (induction codes arbitrary: evs ok)
  case Nil
  then show ?case by simp
next
  case (Cons c codes)
  show ?case
  proof (cases c)
    case True
    with Cons.prems show ?thesis by simp
  next
    case False
    obtain evs1 ok1 where r: "otp_rounds E j codes = (evs1, ok1)"
      by (cases "otp_rounds E j codes")
    from Cons.IH [OF Cons.prems(1) r] have "\<forall>d \<in> set evs1. within_total (j_total j) d" .
    with Cons.prems False r show ?thesis
      by (auto simp: within_total_def status_event_def)
  qed
qed

lemma after_login_within:
  assumes "j_progress j = 0" and "j_total j = int (length ms)"
  shows "\<forall>d \<in> set (after_login E del j ms). within_total (j_total j) d"
proof (cases "scan E")
  case None
  have "\<forall>d \<in> set (fatal E (j\<lparr>j_status := Scanning\<rparr>) ScanFailed).
      within_total (j_total (j\<lparr>j_status := Scanning\<rparr>)) d"
    using assms by (intro fatal_within) simp
  with None assms show ?thesis
    by (simp add: after_login_def within_total_status)
next
  case (Some entries)
  let ?j = "j\<lparr>j_status := Renaming, j_index := entries\<rparr>"
  obtain evs j' lost where r: "run_mappings E del 0 ?j ms = (evs, j', lost)"
    by (cases "run_mappings E del 0 ?j ms")
  from assms have "j_progress ?j + int (length ms) \<le> j_total ?j"
    by simp
  from run_mappings_within [OF this r]
  have "\<forall>d \<in> set evs. within_total (j_total j) d" "j_progress j' \<le> j_total j"
    "j_total j' = j_total j"
    by simp_all
  with Some r assms show ?thesis
    by (simp add: after_login_def within_total_status)
qed

lemma run_job_within:
  "d \<in> set (run_job E r) \<Longrightarrow> within_total (int (length (req_mappings r))) d"
proof -
  let ?j = "\<lparr>j_status = Starting, j_progress = 0,
             j_total = int (length (req_mappings r)), j_renamed = 0, j_failed = 0,
             j_notFound = 0, j_needsOtp = False, j_error = None,
             j_sessionToken = None, j_index = [], j_completed = completion E\<rparr>"
  have t: "j_total ?j = int (length (req_mappings r))" and p: "j_progress ?j = 0"
    by simp_all
  have le: "j_progress ?j \<le> j_total ?j"
    by simp
  have al: "\<forall>d \<in> set (after_login E (req_delete_from_src r) ?j (req_mappings r)).
      within_total (int (length (req_mappings r))) d"
    using after_login_within [OF p t] by simp
  have ft: "\<forall>d \<in> set (fatal E ?j AuthFailed). within_total (int (length (req_mappings r))) d"
    using fatal_within [OF le] by simp
  have st: "within_total (int (length (req_mappings r))) (status_event ?j)"
    "within_total (int (length (req_mappings r))) (status_event (?j\<lparr>j_needsOtp := True\<rparr>))"
    by (simp_all add: within_total_status)
  have "\<forall>d \<in> set (run_job E r). within_total (int (length (req_mappings r))) d"
  proof (cases "authenticate E")
    case AuthSuccess
    with al st show ?thesis by (simp add: run_job_def Let_def)
  next
    case AuthFailure
    with ft st show ?thesis by (simp add: run_job_def Let_def)
  next
    case (AuthNeedsOtp codes)
    obtain evs ok where o: "otp_rounds E ?j codes = (evs, ok)"
      by (cases "otp_rounds E ?j codes")
    from otp_rounds_within [OF le o]
    have "\<forall>d \<in> set evs. within_total (int (length (req_mappings r))) d"
      by simp
    with AuthNeedsOtp o al ft st show ?thesis
      by (auto simp: run_job_def Let_def)
  qed
  then show "d \<in> set (run_job E r) \<Longrightarrow> within_total (int (length (req_mappings r))) d"
    by blast
qed

lemma onmessage_within:
  "within_total n d \<Longrightarrow> job_within n prev \<Longrightarrow> job_within n (onmessage prev d)"
  by (cases d) (simp_all add: within_total_def job_within_def onmessage_def)

lemma resume_within:
  "job_within n (job app) \<Longrightarrow> job_within n (job (fst (handleStart_resume app r)))"
  by (cases r) (simp_all add: job_within_def handleStart_resume_def start_failed_def)

lemma step_within:
  "e \<noteq> ClickStart \<Longrightarrow> (\<forall>d. e = WsMessage d \<longrightarrow> within_total n d) \<Longrightarrow>
   job_within n (job app) \<Longrightarrow> job_within n (job (step app e))"
proof (cases e)
  case (WsMessage d)
  assume "\<forall>d. e = WsMessage d \<longrightarrow> within_total n d" and "job_within n (job app)"
  with WsMessage show ?thesis
    by (simp add: step_def onmessage_within)
next
  case WsError
  assume "job_within n (job app)"
  with WsError show ?thesis
    by (simp add: step_def onerror_def job_within_def)
qed (simp_all add: step_def resume_within job_otp_onClick job_otp_onKeyDown job_otp_onChange)

lemma run_events_within:
  "\<forall>e \<in> set es. e \<noteq> ClickStart \<and> (\<forall>d. e = WsMessage d \<longrightarrow> within_total n d) \<Longrightarrow>
   job_within n (job app) \<Longrightarrow> job_within n (job (run_events app es))"
proof (induction es arbitrary: app)
  case Nil
  then show ?case by (simp add: run_events_Nil)
next
  case (Cons e es)
  from Cons.prems have "job_within n (job (step app e))"
    by (intro step_within) auto
  with Cons.prems(1) have "job_within n (job (run_events (step app e) es))"
    by (intro Cons.IH) auto
  then show ?case by (simp add: run_events_Cons)
qed

text \<open>
  C5. When a start request is accepted, the new job has progress 0 and total the
  length of the Mapping list. From then on, whatever else happens to the page short
  of a new click on Start (the answer to the start request, a WebSocket error, a
  submitted code) and whichever of the engine's messages for this request have
  arrived so far, progress is at most total and total is the number of Mappings of
  the request.
\<close>

theorem progress_within_total:
  "handleStart app = Inr (app1, Some req) \<longrightarrow>
     progress (job app1) = 0 \<and> total_j (job app1) = int (length (req_mappings req)) \<and>
     ((\<forall>e \<in> set es. e \<noteq> ClickStart \<and> (\<forall>d. e = WsMessage d \<longrightarrow> d \<in> set (run_job E req))) \<longrightarrow>
        progress (job (run_events app1 es)) \<le> total_j (job (run_events app1 es)) \<and>
        total_j (job (run_events app1 es)) = int (length (req_mappings req)))"
proof
  assume a: "handleStart app = Inr (app1, Some req)"
  then have s: "progress (job app1) = 0 \<and> total_j (job app1) = int (length (req_mappings req))"
    by (auto simp: handleStart_paired split: if_splits)
  then have w: "job_within (int (length (req_mappings req))) (job app1)"
    by (simp add: job_within_def)
  have "(\<forall>e \<in> set es. e \<noteq> ClickStart \<and> (\<forall>d. e = WsMessage d \<longrightarrow> d \<in> set (run_job E req))) \<longrightarrow>
        job_within (int (length (req_mappings req))) (job (run_events app1 es))"
  proof
    assume "\<forall>e \<in> set es. e \<noteq> ClickStart \<and> (\<forall>d. e = WsMessage d \<longrightarrow> d \<in> set (run_job E req))"
    then have "\<forall>e \<in> set es. e \<noteq> ClickStart \<and>
        (\<forall>d. e = WsMessage d \<longrightarrow> within_total (int (length (req_mappings req))) d)"
      using run_job_within by blast
    from run_events_within [OF this w]
    show "job_within (int (length (req_mappings req))) (job (run_events app1 es))" .
  qed
  with s show "progress (job app1) = 0 \<and> total_j (job app1) = int (length (req_mappings req)) \<and>
     ((\<forall>e \<in> set es. e \<noteq> ClickStart \<and> (\<forall>d. e = WsMessage d \<longrightarrow> d \<in> set (run_job E req))) \<longrightarrow>
        progress (job (run_events app1 es)) \<le> total_j (job (run_events app1 es)) \<and>
        total_j (job (run_events app1 es)) = int (length (req_mappings req)))"
    by (auto simp: job_within_def)
qed

lemma run_job_demo:
  "run_job demo_engine filled_request =
     [StatusMsg (renaming_status\<lparr>data_status := Starting\<rparr>),
      StatusMsg (renaming_status\<lparr>data_status := Starting, data_needs_otp := True\<rparr>),
      LogMsg [],
      StatusMsg (renaming_status\<lparr>data_status := Starting, data_needs_otp := True\<rparr>),
      StatusMsg (renaming_status\<lparr>data_status := Scanning\<rparr>),
      StatusMsg renaming_status,
      LogMsg (ascii ''a.mkv''),
      StatusMsg (renaming_status\<lparr>data_progress := 1, data_renamed := Some 1\<rparr>),
      StatusMsg done_status]"
  by (simp add: run_job_def Let_def demo_engine_def filled_request_def after_login_def
      status_event_def process_mapping_def fuzzy_match_def exact_tier_def
      normalized_tier_def lower_case_def renaming_status_def done_status_def ascii_def)

theorem progress_within_total_witness:
  "handleStart filled_app = Inr (filled_app\<lparr>job := started_job, activeTab := TabRun\<rparr>, Some filled_request) \<and>
   progress (job (run_events (filled_app\<lparr>job := started_job, activeTab := TabRun\<rparr>)
      (StartAnswer (ResponseOk (Some (ascii ''job1''))) #
       map WsMessage (run_job demo_engine filled_request)))) = 1 \<and>
   total_j (job (run_events (filled_app\<lparr>job := started_job, activeTab := TabRun\<rparr>)
      (StartAnswer (ResponseOk (Some (ascii ''job1''))) #
       map WsMessage (run_job demo_engine filled_request)))) = 1"
proof -
  let ?app1 = "filled_app\<lparr>job := started_job, activeTab := TabRun\<rparr>"
  let ?es = "StartAnswer (ResponseOk (Some (ascii ''job1''))) #
       map WsMessage (run_job demo_engine filled_request)"
  have h: "\<forall>e \<in> set ?es. e \<noteq> ClickStart \<and>
      (\<forall>d. e = WsMessage d \<longrightarrow> d \<in> set (run_job demo_engine filled_request))"
    by auto
  from progress_within_total [of filled_app ?app1 filled_request ?es demo_engine]
    handleStart_filled h
  have "progress (job (run_events ?app1 ?es)) \<le> total_j (job (run_events ?app1 ?es)) \<and>
        total_j (job (run_events ?app1 ?es)) = 1"
    by (simp add: filled_request_def)
  moreover have "progress (job (run_events ?app1 ?es)) = 1"
    by (simp add: run_job_demo run_events_def step_def handleStart_resume_def onmessage_def
        renaming_status_def done_status_def)
  ultimately show ?thesis
    using handleStart_filled by simp
qed

section \<open>Properties of the session string\<close>
















section \<open>Properties of the progress bar\<close>

lemma floor_log2_bounds:
  assumes "0 < q"
  shows "2 powi (floor_log2 q) \<le> q \<and> q < 2 powi (floor_log2 q + 1)"
proof (cases "1 \<le> q")
  case True
  define n where "n = \<lfloor>q\<rfloor>"
  from True have n: "1 \<le> n" by (simp add: n_def)
  then have b: "1 \<le> bitlen n" by (simp add: bitlen_alt_def)
  from n have bb: "2 ^ nat (bitlen n - 1) \<le> n" "n < 2 ^ nat (bitlen n)"
    using bitlen_bounds [of n] by auto
  have "2 ^ nat (bitlen n - 1) \<le> real_of_int n"
    using bb(1) by (simp only: numeral_power_le_of_int_cancel_iff)
  moreover have "real_of_int n \<le> q" by (simp add: n_def)
  ultimately have lo: "2 ^ nat (bitlen n - 1) \<le> q" by linarith
  from bb(2) have "n + 1 \<le> 2 ^ nat (bitlen n)" by simp
  then have "real_of_int (n + 1) \<le> 2 ^ nat (bitlen n)"
    by (simp only: of_int_le_numeral_power_cancel_iff)
  moreover have "q < real_of_int (n + 1)" by (simp add: n_def)
  ultimately have hi: "q < 2 ^ nat (bitlen n)" by linarith
  from True have fl: "floor_log2 q = bitlen n - 1" by (simp add: floor_log2_def n_def)
  from b have "(2::real) powi (bitlen n - 1) = 2 ^ nat (bitlen n - 1)"
    by (simp add: power_int_def)
  moreover from b have "(2::real) powi (bitlen n - 1 + 1) = 2 ^ nat (bitlen n)"
    by (simp add: power_int_def)
  ultimately show ?thesis using lo hi fl by simp
next
  case False
  define c where "c = \<lceil>1 / q\<rceil>"
  define k where "k = bitlen (c - 1)"
  from False assms have r: "1 < 1 / q" by simp
  then have c2: "2 \<le> c" unfolding c_def by linarith
  then have k1: "1 \<le> k" by (simp add: k_def bitlen_alt_def)
  from c2 have bb: "2 ^ nat (k - 1) \<le> c - 1" "c - 1 < 2 ^ nat k"
    using bitlen_bounds [of "c - 1"] by (auto simp: k_def)
  from bb(2) have "c \<le> 2 ^ nat k" by simp
  then have "real_of_int c \<le> 2 ^ nat k" by simp
  moreover have "1 / q \<le> real_of_int c" by (simp add: c_def)
  ultimately have "1 / q \<le> 2 ^ nat k" by linarith
  with assms have "1 \<le> 2 ^ nat k * q" by (simp add: field_simps)
  then have lo: "1 / 2 ^ nat k \<le> q" by (simp add: field_simps)
  have "2 ^ nat (k - 1) \<le> real_of_int (c - 1)"
    using bb(1) by (simp only: numeral_power_le_of_int_cancel_iff)
  moreover have "real_of_int (c - 1) < 1 / q" unfolding c_def by linarith
  ultimately have "2 ^ nat (k - 1) < 1 / q" by linarith
  with assms have "2 ^ nat (k - 1) * q < 1" by (simp add: field_simps)
  then have hi: "q < 1 / 2 ^ nat (k - 1)" by (simp add: field_simps)
  from False have fl: "floor_log2 q = - k" by (simp add: floor_log2_def c_def k_def)
  from k1 have "(2::real) powi (- k) = 1 / 2 ^ nat k"
    by (simp add: power_int_def field_simps)
  moreover from k1 have "(2::real) powi (- k + 1) = 1 / 2 ^ nat (k - 1)"
    by (auto simp: power_int_def field_simps nat_diff_distrib)
  ultimately show ?thesis using lo hi fl by simp
qed

lemma round_even_error: "\<bar>real_of_int (round_even x) - x\<bar> \<le> 1 / 2"
  unfolding round_even_def Let_def by (auto; linarith)


lemma binary64_normal:
  assumes q: "0 < q" and lo: "- 1022 \<le> floor_log2 q" and hi: "q < 2 ^ 1023"
  shows "\<exists>r. binary64 q = Num r \<and> \<bar>r - q\<bar> \<le> q / 2 ^ 53"
proof -
  define e where "e = floor_log2 q - 52"
  define t where "t = q / 2 powi e"
  define r where "r = real_of_int (round_even t) * 2 powi e"
  have pe: "0 < (2::real) powi e" by simp
  have "2 powi e = (2::real) powi (floor_log2 q) / 2 ^ 52"
    by (simp add: e_def power_int_diff)
  also have "\<dots> \<le> q / 2 ^ 52"
    using floor_log2_bounds [OF q] by (simp add: divide_right_mono)
  finally have e_le: "2 powi e \<le> q / 2 ^ 52" .
  have "r - q = (real_of_int (round_even t) - t) * 2 powi e"
    by (simp add: r_def t_def algebra_simps)
  then have "\<bar>r - q\<bar> = \<bar>real_of_int (round_even t) - t\<bar> * 2 powi e"
    by (simp add: abs_mult)
  also have "\<dots> \<le> 1 / 2 * 2 powi e"
    using round_even_error [of t] pe by (intro mult_right_mono) simp_all
  also have "\<dots> \<le> 1 / 2 * (q / 2 ^ 52)"
    using e_le by simp
  also have "\<dots> = q / 2 ^ 53" by simp
  finally have err: "\<bar>r - q\<bar> \<le> q / 2 ^ 53" .
  have "q / 2 ^ 53 \<le> q" using q by (simp add: field_simps)
  with err have "r \<le> 2 * q" "- q \<le> r" by linarith+
  with hi q have "r < 2 ^ 1024" "- (2 ^ 1024) < r" by simp_all
  moreover from q lo have "binary64 q =
      (if 2 ^ 1024 \<le> r then PosInfinity else if r \<le> - (2 ^ 1024) then NegInfinity else Num r)"
    by (simp add: binary64_def Let_def r_def t_def e_def max_def)
  ultimately have "binary64 q = Num r" by simp
  with err show ?thesis by blast
qed

lemma floor_log2_ge:
  assumes "0 < q" and "2 powi k \<le> q"
  shows "k \<le> floor_log2 q"
proof (rule ccontr)
  assume "\<not> k \<le> floor_log2 q"
  then have "floor_log2 q + 1 \<le> k" by simp
  then have "(2::real) powi (floor_log2 q + 1) \<le> 2 powi k"
    by (intro power_int_increasing) simp_all
  with floor_log2_bounds [OF assms(1)] assms(2) show False by linarith
qed


lemma binary64_small:
  assumes "1 / 2 ^ 40 \<le> q" and "q \<le> 200"
  shows "\<exists>r. binary64 q = Num r \<and> \<bar>r - q\<bar> \<le> q / 2 ^ 53"
proof -
  have "(0::real) < 1 / 2 ^ 40" by simp
  with assms(1) have q: "0 < q" by linarith
  have "(2::real) powi (- 40) = 1 / 2 ^ 40"
    by (simp add: power_int_minus_divide)
  with assms(1) have "2 powi (- 40) \<le> q" by simp
  with q have "- 40 \<le> floor_log2 q" by (rule floor_log2_ge)
  then have lo: "- 1022 \<le> floor_log2 q" by simp
  have "(200::real) < 2 ^ 1023" by simp
  with assms(2) have "q < 2 ^ 1023" by linarith
  with q lo show ?thesis by (rule binary64_normal)
qed

lemma near_round:
  fixes N D :: int and p :: real
  assumes D: "0 < D" "D \<le> 2 ^ 41"
    and p: "\<bar>p - real_of_int N / real_of_int D\<bar> < 1 / 2 ^ 44"
  shows "\<lfloor>p\<rfloor> = N div D \<or> (\<lfloor>p\<rfloor> = N div D - 1 \<and> D dvd N)"
proof -
  define R where "R = N div D"
  define k where "k = N mod D"
  have N: "N = R * D + k" by (simp add: R_def k_def)
  from D have k: "0 \<le> k" "k < D" by (simp_all add: k_def)
  from D have Dr: "0 < real_of_int D" "real_of_int D \<le> 2 ^ 41" by simp_all
  have z: "real_of_int N / real_of_int D = real_of_int R + real_of_int k / real_of_int D"
    using Dr by (simp add: N field_simps)
  show ?thesis
  proof (cases "k = 0")
    case True
    with z have "real_of_int N / real_of_int D = real_of_int R" by simp
    with p have "\<bar>p - real_of_int R\<bar> < 1 / 2 ^ 44" by simp
    moreover have "(1::real) / 2 ^ 44 < 1" by simp
    ultimately have "real_of_int R - 1 \<le> p" "p < real_of_int R + 1"
      by linarith+
    then have "\<lfloor>p\<rfloor> = R \<or> \<lfloor>p\<rfloor> = R - 1"
      by linarith
    moreover from True have "D dvd N" by (simp add: k_def dvd_eq_mod_eq_0)
    ultimately show ?thesis by (auto simp: R_def)
  next
    case False
    with k have k1: "1 \<le> k" "k \<le> D - 1" by simp_all
    have inv: "1 / 2 ^ 41 \<le> 1 / real_of_int D"
      using Dr by (simp add: frac_le)
    from k1(1) Dr have "1 / real_of_int D \<le> real_of_int k / real_of_int D"
      by (simp add: divide_right_mono)
    with inv have lo: "1 / 2 ^ 41 \<le> real_of_int k / real_of_int D" by linarith
    from k1(2) have "real_of_int k \<le> real_of_int D - 1" by linarith
    with Dr have "real_of_int k / real_of_int D \<le> (real_of_int D - 1) / real_of_int D"
      by (simp add: divide_right_mono)
    also have "\<dots> = 1 - 1 / real_of_int D"
      using Dr by (simp add: field_simps)
    finally have hi: "real_of_int k / real_of_int D \<le> 1 - 1 / 2 ^ 41"
      using inv by linarith
    have small: "(1::real) / 2 ^ 44 < 1 / 2 ^ 41" by simp
    from p z have "\<bar>p - (real_of_int R + real_of_int k / real_of_int D)\<bar> < 1 / 2 ^ 44"
      by simp
    with lo hi small have "real_of_int R \<le> p" "p < real_of_int R + 1"
      by linarith+
    then have "\<lfloor>p\<rfloor> = R" by linarith
    then show ?thesis by (simp add: R_def)
  qed
qed


lemma pct_whole:
  fixes v m :: int
  assumes v: "0 \<le> v" "v \<le> m" and m: "0 < m" "m \<le> 2 ^ 40"
  shows "\<exists>k. pct (Num (real_of_int v)) (Num (real_of_int m)) = Num (real_of_int k) \<and>
           (k = round (100 * real_of_int v / real_of_int m) \<or>
            k = round (100 * real_of_int v / real_of_int m) - 1 \<and> 2 * m dvd 200 * v + m)"
proof (cases "v = 0")
  case True
  with m have "pct (Num (real_of_int v)) (Num (real_of_int m)) = Num (real_of_int 0)"
    by (simp add: pct_def binary64_def)
  moreover from True have "round (100 * real_of_int v / real_of_int m) = 0"
    by simp
  ultimately show ?thesis by metis
next
  case False
  define x where "x = real_of_int v / real_of_int m"
  from m have mr: "0 < real_of_int m" "real_of_int m \<le> 2 ^ 40" by simp_all
  from False v have vr: "1 \<le> real_of_int v" "real_of_int v \<le> real_of_int m" by simp_all
  have x1: "x \<le> 1" using mr vr by (simp add: x_def)
  have "1 / 2 ^ 40 \<le> 1 / real_of_int m" using mr by (simp add: frac_le)
  also have "\<dots> \<le> x" using mr vr by (simp add: x_def divide_right_mono)
  finally have x0: "1 / 2 ^ 40 \<le> x" .
  have xpos: "0 < x" using mr vr by (simp add: x_def)
  from x0 x1 obtain r1 where r1: "binary64 x = Num r1" "\<bar>r1 - x\<bar> \<le> x / 2 ^ 53"
    using binary64_small [of x] by auto
  have h: "x / 2 ^ 53 \<le> x / 2" using xpos by (simp add: field_simps)
  from r1(2) h have r1lo: "x / 2 \<le> r1" by linarith
  from r1(2) h x1 have r1hi: "r1 \<le> 2" by linarith
  define y where "y = r1 * 100"
  from r1lo x0 xpos have y0: "1 / 2 ^ 40 \<le> y" by (simp add: y_def)
  from r1hi have y1: "y \<le> 200" by (simp add: y_def)
  from y0 y1 obtain r2 where r2: "binary64 y = Num r2" "\<bar>r2 - y\<bar> \<le> y / 2 ^ 53"
    using binary64_small [of y] by auto
  from y1 have "y / 2 ^ 53 \<le> 200 / 2 ^ 53" by (simp add: divide_right_mono)
  with r2(2) have e2: "\<bar>r2 - y\<bar> \<le> 200 / 2 ^ 53" by linarith
  have "\<bar>y - 100 * x\<bar> = 100 * \<bar>r1 - x\<bar>" by (simp add: y_def abs_if)
  also have "\<dots> \<le> 100 * (x / 2 ^ 53)" using r1(2) by simp
  also have "\<dots> \<le> 100 / 2 ^ 53" using x1 by simp
  finally have e1: "\<bar>y - 100 * x\<bar> \<le> 100 / 2 ^ 53" .
  have "(300::real) / 2 ^ 53 < 1 / 2 ^ 44" by simp
  with e1 e2 have close: "\<bar>r2 - 100 * x\<bar> < 1 / 2 ^ 44" by linarith
  have half: "100 * x + 1 / 2 = real_of_int (200 * v + m) / real_of_int (2 * m)"
    using mr by (simp add: x_def field_simps)
  have "(r2 + 1 / 2) - real_of_int (200 * v + m) / real_of_int (2 * m) = r2 - 100 * x"
    unfolding half [symmetric] by simp
  with close have "\<bar>(r2 + 1 / 2) - real_of_int (200 * v + m) / real_of_int (2 * m)\<bar> < 1 / 2 ^ 44"
    by (simp only:)
  moreover from m have "0 < 2 * m" "2 * m \<le> 2 ^ 41" by simp_all
  ultimately have fl: "\<lfloor>r2 + 1 / 2\<rfloor> = (200 * v + m) div (2 * m) \<or>
      (\<lfloor>r2 + 1 / 2\<rfloor> = (200 * v + m) div (2 * m) - 1 \<and> 2 * m dvd 200 * v + m)"
    by (intro near_round)
  have "round (100 * real_of_int v / real_of_int m) = \<lfloor>100 * x + 1 / 2\<rfloor>"
    by (simp add: round_def x_def)
  also have "\<dots> = (200 * v + m) div (2 * m)"
    unfolding half by (rule floor_divide_of_int_eq)
  finally have rd: "round (100 * real_of_int v / real_of_int m) = (200 * v + m) div (2 * m)" .
  from m r1(1) r2(1)
  have "pct (Num (real_of_int v)) (Num (real_of_int m)) = Num (real_of_int \<lfloor>r2 + 1 / 2\<rfloor>)"
    by (simp add: pct_def x_def [symmetric] y_def [symmetric])
  with fl rd show ?thesis by metis
qed

lemma binary64_23_40: "binary64 (23 / 40) = Num (2589569785738035 / 4503599627370496)"
  by (simp add: binary64_def Let_def floor_log2_def compute_bitlen round_even_def
      power_int_minus_divide)

lemma binary64_times_100:
  "binary64 (64739244643450875 / 1125899906842624) = Num (8092405580431359 / 140737488355328)"
  by (simp add: binary64_def Let_def floor_log2_def compute_bitlen round_even_def
      power_int_minus_divide)

text \<open>
  C10, as stated, fails: the percentage is not always \<open>round (100 * value / max)\<close>.
  For 23 of 40 the exact percentage is 57.5, which rounds to 58, and the quotient
  taken after the product, \<^verbatim>\<open>100 * value / max\<close>, gives 58 in binary64 too. The
  progress bar divides first: 23 / 40 is rounded to the binary64 number just below
  0.575, the product with 100 to the one just below 57.5, and \<^verbatim>\<open>Math.round\<close>
  gives 57.
\<close>

theorem twenty_three_of_forty:
  "pct (Num 23) (Num 40) = Num 57 \<and>
   round (100 * 23 / 40 :: real) = 58 \<and>
   Math_round (js_div (js_mul (Num 100) (Num 23)) (Num 40)) = Num 58"
proof -
  have "pct (Num 23) (Num 40) = Num 57"
    by (simp add: pct_def binary64_23_40 binary64_times_100)
  moreover have "round (100 * 23 / 40 :: real) = 58"
    by (simp add: round_def)
  moreover have "Math_round (js_div (js_mul (Num 100) (Num 23)) (Num 40)) = Num 58"
    by (simp add: binary64_def Let_def floor_log2_def compute_bitlen round_even_def
        power_int_minus_divide)
  ultimately show ?thesis by simp
qed

text \<open>
  C10, amended. The percentage is computed for every value and every max. When max
  is not greater than 0 (zero, negative, or NaN) it is 0, whatever the value, and
  nothing is divided; so the bar of a job with total 0 shows 0. When max is greater than 0 it is
  \<^verbatim>\<open>Math.round\<close> of the binary64 product of the binary64 quotient value / max with
  100. For whole numbers with 0 \<le> value \<le> max \<le> 2^40 that is
  \<open>round (100 * value / max)\<close>, except that where \<open>100 * value / max\<close> lies exactly
  half-way between two integers it may be the lower of the two.
\<close>

theorem pct_guard_and_rounding:
  fixes v m :: int
  shows "(\<not> js_gt maxv (Num 0) \<longrightarrow> pct val maxv = Num 0) \<and>
   (status j \<noteq> Idle \<and> total_j j \<le> 0 \<longrightarrow> progress_bar j = Some (Num 0)) \<and>
   (js_gt maxv (Num 0) \<longrightarrow>
      pct val maxv = Math_round (js_mul (js_div val maxv) (Num 100))) \<and>
   (0 \<le> v \<and> v \<le> m \<and> 0 < m \<and> m \<le> 2 ^ 40 \<longrightarrow>
      (\<exists>k. pct (Num (real_of_int v)) (Num (real_of_int m)) = Num (real_of_int k) \<and>
           (k = round (100 * real_of_int v / real_of_int m) \<or>
            k = round (100 * real_of_int v / real_of_int m) - 1 \<and>
            2 * m dvd 200 * v + m)))"
  using pct_whole [of v m] by (simp add: pct_def progress_bar_def)

theorem pct_guard_and_rounding_witness:
  "pct (Num 5) (Num 0) = Num 0 \<and> pct (Num 5) NaN = Num 0 \<and>
   progress_bar (initial_job\<lparr>status := Starting\<rparr>) = Some (Num 0) \<and>
   pct (Num 1) (Num 3) = Num 33 \<and>
   (\<exists>k. pct (Num 23) (Num 40) = Num (real_of_int k) \<and> (k = 58 \<or> k = 57))"
proof -
  have z: "\<not> js_gt (Num 0) (Num 0)" "\<not> js_gt NaN (Num 0)"
    by simp_all
  from pct_guard_and_rounding [of "Num 0" "Num 5" initial_job 1 3] z(1)
  have a: "pct (Num 5) (Num 0) = Num 0" by blast
  from pct_guard_and_rounding [of NaN "Num 5" initial_job 1 3] z(2)
  have b: "pct (Num 5) NaN = Num 0" by blast
  have "status (initial_job\<lparr>status := Starting\<rparr>) \<noteq> Idle \<and>
      total_j (initial_job\<lparr>status := Starting\<rparr>) \<le> 0"
    by (simp add: initial_job_def)
  with pct_guard_and_rounding [of "Num 0" "Num 5" "initial_job\<lparr>status := Starting\<rparr>" 1 3]
  have e: "progress_bar (initial_job\<lparr>status := Starting\<rparr>) = Some (Num 0)" by blast
  have "\<not> (2 * 3 :: int) dvd 200 * 1 + 3" by simp
  moreover have "round (100 * real_of_int 1 / real_of_int 3) = 33"
    by (simp add: round_def)
  moreover have "(0::int) \<le> 1 \<and> (1::int) \<le> 3 \<and> (0::int) < 3 \<and> (3::int) \<le> 2 ^ 40"
    by simp
  ultimately have c: "pct (Num 1) (Num 3) = Num 33"
    using pct_guard_and_rounding [of "Num 3" "Num 1" initial_job 1 3] by auto
  have r: "round (100 * real_of_int 23 / real_of_int 40) = 58"
    by (simp add: round_def)
  have "(0::int) \<le> 23 \<and> (23::int) \<le> 40 \<and> (0::int) < 40 \<and> (40::int) \<le> 2 ^ 40"
    by simp
  with pct_guard_and_rounding [of "Num 40" "Num 23" initial_job 23 40]
  obtain k where k: "pct (Num (real_of_int 23)) (Num (real_of_int 40)) = Num (real_of_int k)"
    and "k = round (100 * real_of_int 23 / real_of_int 40) \<or>
         k = round (100 * real_of_int 23 / real_of_int 40) - 1 \<and> 2 * 40 dvd 200 * 23 + (40::int)"
    by blast
  with r have "k = 58 \<or> k = 57"
    by auto
  with k have d: "\<exists>k. pct (Num 23) (Num 40) = Num (real_of_int k) \<and> (k = 58 \<or> k = 57)"
    by auto
  from a b c d e show ?thesis by blast
qed

end
